theory Spec2Isabelle
  imports Complex_Main "HOL-Library.AList" "HOL-Library.Sublist"
begin

section \<open>Python values and exceptions\<close>

text \<open>
  The pipeline is duck-typed: page numbers and coordinates are whatever the parsing library
  put into the element metadata. The values the code distinguishes are modelled by
  \<open>pyval\<close>: \<open>None\<close>, numbers (Python \<open>int\<close> and \<open>float\<close>, idealised as reals),
  lists, tuples, and a coordinates object exposing an attribute \<open>points\<close>.
  Equality of \<open>pyval\<close> is Python's \<open>==\<close> on these values (a list never equals a tuple).
  Strings are \<open>string\<close>; one \<open>char\<close> stands for one character of a Python \<open>str\<close>.
\<close>

datatype pyerr = TypeError | IndexError | AttributeError | OverflowError

datatype pyval =
    PyNone
  | PyNum real
  | PyList "pyval list"
  | PyTuple "pyval list"
  | CoordinatesMetadata pyval

text \<open>\<open>isinstance(v, list)\<close> and \<open>isinstance(v, tuple)\<close>.\<close>

fun isinstance_list :: "pyval \<Rightarrow> bool" where
  "isinstance_list (PyList vs) = True"
| "isinstance_list v = False"

fun isinstance_tuple :: "pyval \<Rightarrow> bool" where
  "isinstance_tuple (PyTuple vs) = True"
| "isinstance_tuple v = False"

text \<open>Truth value of a value in a condition (\<open>if v\<close>).\<close>

fun truthy :: "pyval \<Rightarrow> bool" where
  "truthy PyNone = False"
| "truthy (PyNum r) = (r \<noteq> 0)"
| "truthy (PyList vs) = (vs \<noteq> [])"
| "truthy (PyTuple vs) = (vs \<noteq> [])"
| "truthy (CoordinatesMetadata p) = True"

text \<open>
  Whether \<open>hash(v)\<close> succeeds: lists are unhashable, a tuple is hashable when all its
  items are, and the coordinates object (a dataclass with \<open>__eq__\<close>) is unhashable.
\<close>

fun hashable :: "pyval \<Rightarrow> bool" where
  "hashable PyNone = True"
| "hashable (PyNum r) = True"
| "hashable (PyList vs) = False"
| "hashable (PyTuple vs) = list_all hashable vs"
| "hashable (CoordinatesMetadata p) = False"

text \<open>\<open>c.points if hasattr(c, 'points') else c\<close>.\<close>

fun points_or_self :: "pyval \<Rightarrow> pyval" where
  "points_or_self (CoordinatesMetadata p) = p"
| "points_or_self v = v"

text \<open>\<open>c.points\<close> without the guard.\<close>

fun points_attr :: "pyval \<Rightarrow> pyerr + pyval" where
  "points_attr (CoordinatesMetadata p) = Inr p"
| "points_attr v = Inl AttributeError"

text \<open>A comprehension or \<open>map\<close> whose body may raise: the first exception ends it.\<close>

fun try_map :: "('a \<Rightarrow> pyerr + 'b) \<Rightarrow> 'a list \<Rightarrow> pyerr + 'b list" where
  "try_map f [] = Inr []"
| "try_map f (x # xs) =
     (case f x of
        Inl e \<Rightarrow> Inl e
      | Inr y \<Rightarrow> (case try_map f xs of Inl e \<Rightarrow> Inl e | Inr ys \<Rightarrow> Inr (y # ys)))"

text \<open>Iterating a value: lists and tuples yield their items, anything else is a \<open>TypeError\<close>.\<close>

fun py_iter :: "pyval \<Rightarrow> pyerr + pyval list" where
  "py_iter (PyList vs) = Inr vs"
| "py_iter (PyTuple vs) = Inr vs"
| "py_iter v = Inl TypeError"

text \<open>\<open>tuple(v)\<close> and \<open>tuple(map(tuple, v))\<close>.\<close>

definition py_tuple :: "pyval \<Rightarrow> pyerr + pyval" where
  "py_tuple v = (case py_iter v of Inl e \<Rightarrow> Inl e | Inr vs \<Rightarrow> Inr (PyTuple vs))"

definition tuple_map_tuple :: "pyval \<Rightarrow> pyerr + pyval" where
  "tuple_map_tuple v =
     (case py_iter v of
        Inl e \<Rightarrow> Inl e
      | Inr ps \<Rightarrow> (case try_map py_tuple ps of Inl e \<Rightarrow> Inl e | Inr ts \<Rightarrow> Inr (PyTuple ts)))"

text \<open>\<open>p[k]\<close> for a non-negative index \<open>k\<close>.\<close>

fun py_getitem :: "nat \<Rightarrow> pyval \<Rightarrow> pyerr + pyval" where
  "py_getitem k (PyList vs) = (if k < length vs then Inr (vs ! k) else Inl IndexError)"
| "py_getitem k (PyTuple vs) = (if k < length vs then Inr (vs ! k) else Inl IndexError)"
| "py_getitem k v = Inl TypeError"

fun py_num :: "pyval \<Rightarrow> pyerr + real" where
  "py_num (PyNum r) = Inr r"
| "py_num v = Inl TypeError"

text \<open>\<open>min\<close> and \<open>max\<close> of a non-empty list of numbers, scanning from the left.\<close>

fun py_min :: "real list \<Rightarrow> real" where
  "py_min [] = 0"
| "py_min (r # rs) = fold min rs r"

fun py_max :: "real list \<Rightarrow> real" where
  "py_max [] = 0"
| "py_max (r # rs) = fold max rs r"

section \<open>Elements\<close>

datatype category =
    CompositeElement | NarrativeText | ListItem | UncategorizedText
  | Table | Image | FigureCaption | OtherCategory

text \<open>
  In the metadata, \<open>None\<close> for \<open>page_number\<close> or \<open>coordinates\<close> means that the attribute is
  absent (\<open>hasattr\<close> is false); an attribute that is present with the value \<open>None\<close> is
  \<open>Some PyNone\<close>. For \<open>image_path\<close> the code treats both alike.
\<close>

record metadata =
  page_number :: "pyval option"
  coordinates :: "pyval option"
  image_path :: "string option"
  text_as_html :: "string option"

text \<open>\<open>elem_text\<close> is \<open>str(element)\<close>.\<close>

record element =
  category :: category
  elem_text :: string
  metadata :: metadata

section \<open>element_categorizer.py\<close>

definition text_like :: "category \<Rightarrow> bool" where
  "text_like c =
     (c = CompositeElement \<or> c = NarrativeText \<or> c = ListItem \<or> c = UncategorizedText)"

text \<open>\<open>v > n\<close> for an integer \<open>n\<close>: only a number can be compared.\<close>

fun py_gt_int :: "pyval \<Rightarrow> int \<Rightarrow> pyerr + bool" where
  "py_gt_int (PyNum r) n = Inr (r > of_int n)"
| "py_gt_int v n = Inl TypeError"

text \<open>The page filter of \<open>categorize_elements\<close>.\<close>

definition beyond_page_limit :: "element \<Rightarrow> int \<Rightarrow> pyerr + bool" where
  "beyond_page_limit el pages_to_be_extracted =
     (if pages_to_be_extracted > 0
      then (case page_number (metadata el) of
              None \<Rightarrow> Inr False
            | Some pg \<Rightarrow> py_gt_int pg pages_to_be_extracted)
      else Inr False)"

text \<open>How an f-string renders \<open>text_as_html\<close>.\<close>

fun format_html :: "string option \<Rightarrow> string" where
  "format_html None = ''None''"
| "format_html (Some h) = h"

text \<open>The string appended to \<open>tables_html\<close> for the table at index \<open>i\<close>.\<close>

definition table_with_summary_appended :: "element list \<Rightarrow> nat \<Rightarrow> string option" where
  "table_with_summary_appended raw_pdf_elements i =
     (let table_html = text_as_html (metadata (raw_pdf_elements ! i));
          prev_element_text =
            (if i > 0 \<and> text_like (category (raw_pdf_elements ! (i - 1)))
             then elem_text (raw_pdf_elements ! (i - 1)) else [])
      in if prev_element_text \<noteq> [] \<and> length prev_element_text < 200
         then Some (prev_element_text @ [CHR 0x0A, CHR 0x0A] @ format_html table_html)
         else table_html)"

text \<open>
  The loop over \<open>range(len(raw_pdf_elements))\<close>. The debug messages are formatted
  eagerly and read \<open>element.metadata.page_number\<close>, so a text or table element without
  that attribute raises \<open>AttributeError\<close>.
\<close>

fun categorize_loop ::
  "element list \<Rightarrow> int \<Rightarrow> nat list \<Rightarrow> string list \<times> string option list
     \<Rightarrow> pyerr + (string list \<times> string option list)" where
  "categorize_loop els pages [] acc = Inr acc"
| "categorize_loop els pages (i # is) (texts, tables_html) =
     (let el = els ! i in
      case beyond_page_limit el pages of
        Inl e \<Rightarrow> Inl e
      | Inr True \<Rightarrow> categorize_loop els pages is (texts, tables_html)
      | Inr False \<Rightarrow>
          if text_like (category el) then
            (if page_number (metadata el) = None then Inl AttributeError
             else categorize_loop els pages is (texts @ [elem_text el], tables_html))
          else if category el = Table then
            (if page_number (metadata el) = None then Inl AttributeError
             else categorize_loop els pages is
                    (texts, tables_html @ [table_with_summary_appended els i]))
          else categorize_loop els pages is (texts, tables_html))"

definition categorize_elements ::
  "element list \<Rightarrow> int \<Rightarrow> pyerr + (string list \<times> string option list)" where
  "categorize_elements raw_pdf_elements pages_to_be_extracted =
     categorize_loop raw_pdf_elements pages_to_be_extracted
       [0..<length raw_pdf_elements] ([], [])"

section \<open>image_processor.py\<close>

subsection \<open>Geometry keys\<close>

text \<open>
  The key built by \<open>convert_images_to_base64\<close>:
  \<open>(page_number, tuple(map(tuple, coordinates.points)))\<close>.
\<close>

definition base64_image_key :: "pyval \<Rightarrow> pyval \<Rightarrow> pyerr + pyval" where
  "base64_image_key pg c =
     (case points_attr c of
        Inl e \<Rightarrow> Inl e
      | Inr pts \<Rightarrow>
          (case tuple_map_tuple pts of Inl e \<Rightarrow> Inl e | Inr t \<Rightarrow> Inr (PyTuple [pg, t])))"

text \<open>
  The key built in \<open>generate_caption_image_page_number\<close>, for a matched image and
  for an uncaptioned one alike: coordinates that are a tuple are taken as they are,
  anything else goes through \<open>tuple(map(tuple, ...))\<close>.
\<close>

definition coords_for_key :: "pyval \<Rightarrow> pyerr + pyval" where
  "coords_for_key c = (if isinstance_tuple c then Inr c else tuple_map_tuple c)"

definition caption_stage_key :: "pyval \<Rightarrow> pyval \<Rightarrow> pyerr + pyval" where
  "caption_stage_key pg c =
     (case coords_for_key c of Inl e \<Rightarrow> Inl e | Inr t \<Rightarrow> Inr (PyTuple [pg, t]))"

subsection \<open>find_closest_image\<close>

record img_data =
  img_image_path :: "string option"
  img_page_number :: pyval
  img_coordinates :: pyval

datatype center_result = Center real real | Unexpected_format | Raised pyerr

text \<open>
  \<open>(min(cs) + max(cs)) / 2\<close> for the non-empty list \<open>cs\<close> of one coordinate of every
  point. When an item is not a number, either a comparison inside \<open>min\<close>/\<open>max\<close>, the
  addition, or the division by 2 raises \<open>TypeError\<close>.
\<close>

definition min_max_mid :: "pyval list \<Rightarrow> pyerr + real" where
  "min_max_mid cs =
     (case try_map py_num cs of
        Inl e \<Rightarrow> Inl e
      | Inr rs \<Rightarrow> Inr ((py_min rs + py_max rs) / 2))"

text \<open>
  The center of a bounding box, as computed (by the same statements) for the caption and
  for every candidate image: only a non-empty list is accepted.
\<close>

definition bbox_center :: "pyval \<Rightarrow> center_result" where
  "bbox_center coords =
     (case coords of
        PyList ps \<Rightarrow>
          if length ps > 0 then
            (case try_map (py_getitem 0) ps of
               Inl e \<Rightarrow> Raised e
             | Inr x_coords \<Rightarrow>
                 (case try_map (py_getitem 1) ps of
                    Inl e \<Rightarrow> Raised e
                  | Inr y_coords \<Rightarrow>
                      (case min_max_mid x_coords of
                         Inl e \<Rightarrow> Raised e
                       | Inr cx \<Rightarrow>
                           (case min_max_mid y_coords of
                              Inl e \<Rightarrow> Raised e
                            | Inr cy \<Rightarrow> Center cx cy))))
          else Unexpected_format
      | _ \<Rightarrow> Unexpected_format)"

text \<open>
  The distance between two centers. Python computes it in floating point; here the
  numbers are reals, so rounding and overflow are not modelled. The statements about
  \<open>find_closest_image\<close> below compare no two computed distances.
\<close>

definition euclid :: "real \<Rightarrow> real \<Rightarrow> real \<Rightarrow> real \<Rightarrow> real" where
  "euclid cx cy ix iy =
     (let horizontal_distance = \<bar>cx - ix\<bar>; vertical_distance = \<bar>cy - iy\<bar>
      in sqrt (horizontal_distance ^ 2 + vertical_distance ^ 2))"

text \<open>\<open>distance < min_distance\<close>, where \<open>None\<close> stands for \<open>float('inf')\<close>.\<close>

fun below :: "real \<Rightarrow> real option \<Rightarrow> bool" where
  "below d None = True"
| "below d (Some m) = (d < m)"

text \<open>
  The loop over the candidate images; the state is \<open>(min_distance, closest_image)\<close>.
  A candidate whose center raises is logged and skipped, like one with an unexpected
  coordinates format.
\<close>

fun closest_loop ::
  "real \<Rightarrow> real \<Rightarrow> pyval \<Rightarrow> img_data list \<Rightarrow> real option \<times> img_data option
     \<Rightarrow> real option \<times> img_data option" where
  "closest_loop cx cy pg [] acc = acc"
| "closest_loop cx cy pg (img # imgs) (min_distance, closest_image) =
     (if img_page_number img = pg \<and> truthy (img_coordinates img) then
        (case bbox_center (img_coordinates img) of
           Center ix iy \<Rightarrow>
             (let distance = euclid cx cy ix iy in
              if below distance min_distance
              then closest_loop cx cy pg imgs (Some distance, Some img)
              else closest_loop cx cy pg imgs (min_distance, closest_image))
         | _ \<Rightarrow> closest_loop cx cy pg imgs (min_distance, closest_image))
      else closest_loop cx cy pg imgs (min_distance, closest_image))"

definition find_closest_image :: "element \<Rightarrow> img_data list \<Rightarrow> img_data option" where
  "find_closest_image caption images =
     (case coordinates (metadata caption) of
        None \<Rightarrow> None
      | Some c \<Rightarrow>
          (case page_number (metadata caption) of
             None \<Rightarrow> None
           | Some caption_page_number \<Rightarrow>
               (let caption_coords = points_or_self c in
                case bbox_center caption_coords of
                  Center cx cy \<Rightarrow>
                    snd (closest_loop cx cy caption_page_number images (None, None))
                | _ \<Rightarrow> None)))"

subsection \<open>generate_caption_image_page_number\<close>

record image_info =
  base64_data :: string
  caption_text :: string
  info_page_number :: pyval

text \<open>
  A Python \<open>dict\<close> keeps insertion order, and the summarizer iterates over it: it is an
  association list with distinct keys, \<open>AList.update\<close> being the assignment \<open>d[k] = v\<close>
  (in place for a key that is there, at the end for a new one). A dictionary operation
  hashes the key first and raises \<open>TypeError\<close> for an unhashable one.
\<close>

type_synonym 'v pydict = "(pyval \<times> 'v) list"

definition images_for_closest_search :: "element list \<Rightarrow> img_data list" where
  "images_for_closest_search images =
     List.map_filter
       (\<lambda>el. case page_number (metadata el) of
                None \<Rightarrow> None
              | Some pg \<Rightarrow>
                  (case coordinates (metadata el) of
                     None \<Rightarrow> None
                   | Some c \<Rightarrow>
                       Some \<lparr>img_image_path = image_path (metadata el),
                             img_page_number = pg,
                             img_coordinates = points_or_self c\<rparr>))
       images"

fun caption_loop ::
  "element list \<Rightarrow> string pydict \<Rightarrow> element list \<Rightarrow> image_info pydict
     \<Rightarrow> pyerr + image_info pydict" where
  "caption_loop images image_base64_dict [] d = Inr d"
| "caption_loop images image_base64_dict (caption # captions) d =
     (case find_closest_image caption (images_for_closest_search images) of
        None \<Rightarrow> caption_loop images image_base64_dict captions d
      | Some closest_image \<Rightarrow>
          (case caption_stage_key (img_page_number closest_image)
                  (img_coordinates closest_image) of
             Inl e \<Rightarrow>
               if e = TypeError then caption_loop images image_base64_dict captions d
               else Inl e
           | Inr image_key \<Rightarrow>
               (if \<not> hashable image_key then Inl TypeError
                else (case map_of image_base64_dict image_key of
                        Some data \<Rightarrow>
                          caption_loop images image_base64_dict captions
                            (AList.update image_key
                               \<lparr>base64_data = data,
                                caption_text = elem_text caption,
                                info_page_number = img_page_number closest_image\<rparr> d)
                      | None \<Rightarrow> caption_loop images image_base64_dict captions d))))"

fun orphan_loop ::
  "string pydict \<Rightarrow> element list \<Rightarrow> image_info pydict \<Rightarrow> pyerr + image_info pydict" where
  "orphan_loop image_base64_dict [] d = Inr d"
| "orphan_loop image_base64_dict (img_element # rest) d =
     (case page_number (metadata img_element) of
        None \<Rightarrow> orphan_loop image_base64_dict rest d
      | Some pg \<Rightarrow>
          (case coordinates (metadata img_element) of
             None \<Rightarrow> orphan_loop image_base64_dict rest d
           | Some c \<Rightarrow>
               (case caption_stage_key pg (points_or_self c) of
                  Inl e \<Rightarrow>
                    if e = TypeError then orphan_loop image_base64_dict rest d else Inl e
                | Inr img_key_for_dict \<Rightarrow>
                    (if \<not> hashable img_key_for_dict then Inl TypeError
                     else if map_of d img_key_for_dict = None then
                       orphan_loop image_base64_dict rest
                         (AList.update img_key_for_dict
                            \<lparr>base64_data =
                               (case map_of image_base64_dict img_key_for_dict of
                                  Some data \<Rightarrow> data
                                | None \<Rightarrow> []),
                             caption_text = [],
                             info_page_number = pg\<rparr> d)
                     else orphan_loop image_base64_dict rest d))))"

definition generate_caption_image_page_number ::
  "element list \<Rightarrow> string pydict \<Rightarrow> pyerr + image_info pydict" where
  "generate_caption_image_page_number raw_pdf_elements image_base64_dict =
     (let images = filter (\<lambda>el. category el = Image) raw_pdf_elements;
          captions = filter (\<lambda>el. category el = FigureCaption) raw_pdf_elements
      in case caption_loop images image_base64_dict captions [] of
           Inl e \<Rightarrow> Inl e
         | Inr d \<Rightarrow> orphan_loop image_base64_dict images d)"

subsection \<open>convert_images_to_base64\<close>

text \<open>
  The file system is a parameter: \<open>path_exists\<close> is \<open>os.path.exists\<close>, and
  \<open>read_base64 p\<close> is the base64 text of the file at \<open>p\<close>, or \<open>None\<close> when opening
  or reading it raises. Every message about an image element formats its page number, so
  an image element without that attribute raises \<open>AttributeError\<close>; all other exceptions
  are caught inside the loop body.
\<close>

record raw_image =
  raw_image_path :: string
  raw_base64_data :: string
  raw_page_number :: pyval
  raw_coordinates :: pyval

fun convert_loop ::
  "(string \<Rightarrow> bool) \<Rightarrow> (string \<Rightarrow> string option) \<Rightarrow> element list
     \<Rightarrow> raw_image list \<times> string pydict \<Rightarrow> pyerr + (raw_image list \<times> string pydict)" where
  "convert_loop path_exists read_base64 [] acc = Inr acc"
| "convert_loop path_exists read_base64 (el # rest) (raw_image_list, image_data_dict) =
     (if category el = Image then
        (case page_number (metadata el) of
           None \<Rightarrow> Inl AttributeError
         | Some pg \<Rightarrow>
             (case image_path (metadata el) of
                None \<Rightarrow>
                  convert_loop path_exists read_base64 rest (raw_image_list, image_data_dict)
              | Some path \<Rightarrow>
                  if path \<noteq> [] \<and> path_exists path then
                    (case read_base64 path of
                       None \<Rightarrow>
                         convert_loop path_exists read_base64 rest
                           (raw_image_list, image_data_dict)
                     | Some image_base64_encoded \<Rightarrow>
                         (case coordinates (metadata el) of
                            None \<Rightarrow>
                              convert_loop path_exists read_base64 rest
                                (raw_image_list, image_data_dict)
                          | Some c \<Rightarrow>
                              (let raw_image_list' = raw_image_list @
                                     [\<lparr>raw_image_path = path,
                                       raw_base64_data = image_base64_encoded,
                                       raw_page_number = pg,
                                       raw_coordinates = c\<rparr>]
                               in case base64_image_key pg c of
                                    Inl e \<Rightarrow>
                                      convert_loop path_exists read_base64 rest
                                        (raw_image_list', image_data_dict)
                                  | Inr image_key \<Rightarrow>
                                      if hashable image_key then
                                        convert_loop path_exists read_base64 rest
                                          (raw_image_list',
                                           AList.update image_key image_base64_encoded
                                             image_data_dict)
                                      else
                                        convert_loop path_exists read_base64 rest
                                          (raw_image_list', image_data_dict))))
                  else
                    convert_loop path_exists read_base64 rest
                      (raw_image_list, image_data_dict)))
      else convert_loop path_exists read_base64 rest (raw_image_list, image_data_dict))"

definition convert_images_to_base64 ::
  "(string \<Rightarrow> bool) \<Rightarrow> (string \<Rightarrow> string option) \<Rightarrow> element list
     \<Rightarrow> pyerr + (raw_image list \<times> string pydict)" where
  "convert_images_to_base64 path_exists read_base64 raw_pdf_elements =
     convert_loop path_exists read_base64 raw_pdf_elements ([], [])"

section \<open>The external model\<close>

text \<open>
  One call of \<open>model.generate_content(...)\<close> followed by reading \<open>.text\<close> either returns
  a string, raises \<open>ResourceExhausted\<close>, or raises some other exception. A
  \<open>ResourceExhausted\<close> error comes with the number of seconds of its \<open>retry_delay\<close> when
  it has one that is truthy; \<open>ResourceExhaustedBadDelay\<close> is such an error whose truthy
  \<open>retry_delay\<close> makes \<open>max(wait_time, e.retry_delay.seconds)\<close> raise the given
  exception (\<open>AttributeError\<close> when it has no \<open>seconds\<close>).
  The model is an oracle from the number of calls made so far and the prompt to the
  outcome; the world counts the calls and logs every \<open>time.sleep\<close> that returns.
\<close>

datatype outcome =
    Returned string
  | ResourceExhausted "int option"
  | ResourceExhaustedBadDelay pyerr
  | OtherException

type_synonym 'p llm = "nat \<Rightarrow> 'p \<Rightarrow> outcome"

record world =
  calls :: nat
  sleeps :: "int list"

section \<open>image_summarizer.py\<close>

text \<open>
  The sleep after a rate-limit error: \<open>2 ** retries\<close> (\<open>retries\<close> already incremented,
  so the exponent is positive), or the server's suggestion when that is larger. Then the
  \<open>while\<close> loop of \<open>make_llm_call_with_retry_multimodal\<close>, from the current value of
  \<open>retries\<close> (which the function starts at 0). The handler of the rate-limit error is
  not guarded: reading the delay can raise, and so can \<open>time.sleep\<close>, which refuses a
  duration too large for the clock with \<open>OverflowError\<close>; which durations it refuses
  depends on the platform and is the parameter \<open>sleep_raises\<close>. The result is the
  returned string or the exception that leaves the function.
\<close>

definition backoff_wait :: "int \<Rightarrow> int option \<Rightarrow> int" where
  "backoff_wait retries retry_delay =
     (let wait_time = 2 ^ nat retries
      in case retry_delay of
           None \<Rightarrow> wait_time
         | Some seconds \<Rightarrow> max wait_time seconds)"

function retry_loop ::
  "(int \<Rightarrow> bool) \<Rightarrow> 'p llm \<Rightarrow> 'p \<Rightarrow> string \<Rightarrow> string \<Rightarrow> int \<Rightarrow> int \<Rightarrow> world
     \<Rightarrow> (pyerr + string) \<times> world" where
  "retry_loop sleep_raises model content_parts element_type element_key max_retries retries w =
     (if retries < max_retries then
        (case model (calls w) content_parts of
           Returned txt \<Rightarrow> (Inr txt, w\<lparr>calls := Suc (calls w)\<rparr>)
         | ResourceExhausted retry_delay \<Rightarrow>
             (let retries' = retries + 1;
                  wait_time = backoff_wait retries' retry_delay
              in if sleep_raises wait_time
                 then (Inl OverflowError, w\<lparr>calls := Suc (calls w)\<rparr>)
                 else retry_loop sleep_raises model content_parts element_type element_key
                        max_retries retries'
                        (w\<lparr>calls := Suc (calls w), sleeps := sleeps w @ [wait_time]\<rparr>))
         | ResourceExhaustedBadDelay e \<Rightarrow> (Inl e, w\<lparr>calls := Suc (calls w)\<rparr>)
         | OtherException \<Rightarrow>
             (Inr (''Error summarizing '' @ element_type @ '' '' @ element_key @ ''.''),
              w\<lparr>calls := Suc (calls w)\<rparr>))
      else
        (Inr (''Failed to summarize '' @ element_type @ '' '' @ element_key
           @ '' after multiple retries.''), w))"
  by pat_completeness auto
termination
  by (relation "measure (\<lambda>(sr, model, cp, et, ek, max_retries, retries, w).
        nat (max_retries - retries))")
     auto

definition make_llm_call_with_retry_multimodal ::
  "(int \<Rightarrow> bool) \<Rightarrow> 'p llm \<Rightarrow> 'p \<Rightarrow> string \<Rightarrow> string \<Rightarrow> int \<Rightarrow> world
     \<Rightarrow> (pyerr + string) \<times> world" where
  "make_llm_call_with_retry_multimodal sleep_raises model content_parts element_type
       element_key max_retries w =
     retry_loop sleep_raises model content_parts element_type element_key max_retries 0 w"

text \<open>
  The prompt of one image: the header line, the image part (decoded data and MIME type)
  and the instruction. The dictionaries built by \<open>generate_caption_image_page_number\<close>
  have no \<open>image_path\<close> entry, so the MIME type stays \<open>image/jpeg\<close>. \<open>py_str\<close> is how
  Python formats a value inside an f-string.
\<close>

type_synonym 'b image_prompt = "string \<times> ('b \<times> string) \<times> string"

definition prompt_parts ::
  "(pyval \<Rightarrow> string) \<Rightarrow> pyval \<Rightarrow> string \<Rightarrow> 'b \<Rightarrow> 'b image_prompt" where
  "prompt_parts py_str pg caption decoded_image_data =
     (''Image on page '' @ py_str pg @ ''. Caption: ''
        @ (if caption \<noteq> [] then caption else ''No caption provided.'') @ [CHR 0x0A],
      (decoded_image_data, ''image/jpeg''),
      ''Please analyze the image and its caption (if any) and provide a detailed summary. ''
        @ ''Start the summary with 'This context is coming from image: '.'')"

text \<open>
  The loop of \<open>image_to_text_summarizer\<close> over the items of the dictionary; the state is
  \<open>(image_summary_list, image_exception_counter, world)\<close>. The body runs inside
  \<open>try ... except Exception\<close>: when \<open>b64decode\<close> raises (\<open>None\<close> stands for its
  exception) or an exception leaves the retrying call, the item is counted and gets the
  message of the handler. \<open>sublist\<close> is the substring test \<open>in\<close>.
\<close>

fun image_loop ::
  "(int \<Rightarrow> bool) \<Rightarrow> 'b image_prompt llm \<Rightarrow> (pyval \<Rightarrow> string) \<Rightarrow> (string \<Rightarrow> 'b option)
     \<Rightarrow> image_info pydict \<Rightarrow> string list \<times> nat \<times> world \<Rightarrow> string list \<times> nat \<times> world" where
  "image_loop sleep_raises model py_str b64decode [] acc = acc"
| "image_loop sleep_raises model py_str b64decode ((image_key, info) # rest)
       (image_summary_list, image_exception_counter, w) =
     (case b64decode (base64_data info) of
        None \<Rightarrow>
          image_loop sleep_raises model py_str b64decode rest
            (image_summary_list @ [''Error processing image with key '' @ py_str image_key @ ''.''],
             image_exception_counter + 1, w)
      | Some decoded_image_data \<Rightarrow>
          (let pg = info_page_number info;
               (result, w') =
                 make_llm_call_with_retry_multimodal sleep_raises model
                   (prompt_parts py_str pg (caption_text info) decoded_image_data)
                   ''image'' (''page '' @ py_str pg @ '' ('' @ py_str image_key @ '')'') 5 w
           in case result of
                Inl e \<Rightarrow>
                  image_loop sleep_raises model py_str b64decode rest
                    (image_summary_list
                       @ [''Error processing image with key '' @ py_str image_key @ ''.''],
                     image_exception_counter + 1, w')
              | Inr summary \<Rightarrow>
                  image_loop sleep_raises model py_str b64decode rest
                    (image_summary_list @ [summary],
                     (if sublist ''Error summarizing image'' summary
                         \<or> sublist ''Failed to summarize image'' summary
                      then image_exception_counter + 1 else image_exception_counter),
                     w')))"

definition image_to_text_summarizer ::
  "(int \<Rightarrow> bool) \<Rightarrow> 'b image_prompt llm \<Rightarrow> (pyval \<Rightarrow> string) \<Rightarrow> (string \<Rightarrow> 'b option)
     \<Rightarrow> image_info pydict \<Rightarrow> world \<Rightarrow> string list \<times> nat \<times> world" where
  "image_to_text_summarizer sleep_raises model py_str b64decode caption_image_dict w =
     image_loop sleep_raises model py_str b64decode caption_image_dict ([], 0, w)"

section \<open>text_table_summarizer.py\<close>

definition text_sentinel :: "string \<Rightarrow> string" where
  "text_sentinel t = ''Error summarizing text: '' @ take 100 t @ ''...''"

definition table_sentinel :: "string \<Rightarrow> string" where
  "table_sentinel t = ''Error summarizing table: '' @ take 100 t @ ''...''"

text \<open>
  The loop over the texts: one call per item, any exception counted and replaced by the
  failure string. The state is \<open>(summaries, exception_counter, world)\<close>. The texts are
  the strings \<open>str(element)\<close> collected by \<open>categorize_elements\<close>.
\<close>

fun summary_loop ::
  "string list llm \<Rightarrow> (string \<Rightarrow> string) \<Rightarrow> string list
     \<Rightarrow> string list \<times> nat \<times> world \<Rightarrow> string list \<times> nat \<times> world" where
  "summary_loop model failure [] acc = acc"
| "summary_loop model failure (item # items) (summaries, exception_counter, w) =
     (case model (calls w) [item] of
        Returned summary \<Rightarrow>
          summary_loop model failure items
            (summaries @ [summary], exception_counter, w\<lparr>calls := Suc (calls w)\<rparr>)
      | _ \<Rightarrow>
          summary_loop model failure items
            (summaries @ [failure item], exception_counter + 1, w\<lparr>calls := Suc (calls w)\<rparr>))"

text \<open>
  The loop over the tables is the same statements, but an item of \<open>tables_html\<close> can be
  \<open>None\<close> (a table without \<open>text_as_html\<close>): the handler then raises \<open>TypeError\<close> at
  \<open>table[:200]\<close>, which leaves the function. \<open>table_failure\<close> is what the handler
  makes of an item.
\<close>

fun table_failure :: "string option \<Rightarrow> pyerr + string" where
  "table_failure None = Inl TypeError"
| "table_failure (Some t) = Inr (table_sentinel t)"

fun table_loop ::
  "string option list llm \<Rightarrow> string option list
     \<Rightarrow> string list \<times> nat \<times> world \<Rightarrow> pyerr + (string list \<times> nat \<times> world)" where
  "table_loop model [] acc = Inr acc"
| "table_loop model (table # tables) (summaries, exception_counter, w) =
     (case model (calls w) [table] of
        Returned summary \<Rightarrow>
          table_loop model tables
            (summaries @ [summary], exception_counter, w\<lparr>calls := Suc (calls w)\<rparr>)
      | _ \<Rightarrow>
          (case table_failure table of
             Inl e \<Rightarrow> Inl e
           | Inr message \<Rightarrow>
               table_loop model tables
                 (summaries @ [message], exception_counter + 1,
                  w\<lparr>calls := Suc (calls w)\<rparr>)))"

text \<open>
  The result is \<open>(text_summaries, table_summaries)\<close>, with the two counters the function
  logs and the world after the batch, or the exception that leaves the function.
\<close>

definition generate_table_text_summaries ::
  "string list llm \<Rightarrow> string option list llm \<Rightarrow> string list \<Rightarrow> string option list \<Rightarrow> world
     \<Rightarrow> pyerr + ((string list \<times> string list) \<times> (nat \<times> nat) \<times> world)" where
  "generate_table_text_summaries model_text_summarize model_table_summarize texts tables w =
     (let (text_summaries, text_exception_counter, w1) =
            summary_loop model_text_summarize text_sentinel texts ([], 0, w)
      in case table_loop model_table_summarize tables ([], 0, w1) of
           Inl e \<Rightarrow> Inl e
         | Inr (table_summaries, table_exception_counter, w2) \<Rightarrow>
             Inr ((text_summaries, table_summaries),
                  (text_exception_counter, table_exception_counter), w2))"

section \<open>Notions used in the statements\<close>

text \<open>
  \<open>isinstance(c, list) and len(c) > 0\<close>, the format test of \<open>find_closest_image\<close>.
\<close>

definition nonempty_list :: "pyval \<Rightarrow> bool" where
  "nonempty_list v = (case v of PyList ps \<Rightarrow> ps \<noteq> [] | _ \<Rightarrow> False)"

text \<open>
  A candidate of the search on page \<open>pg\<close>: an image dictionary that passes the page and
  truth tests of the loop and whose center is computed; and the distance the loop
  computes for it from the caption's center \<open>(cx, cy)\<close>.
\<close>

definition has_center :: "pyval \<Rightarrow> bool" where
  "has_center v = (case bbox_center v of Center x y \<Rightarrow> True | _ \<Rightarrow> False)"

definition candidate :: "pyval \<Rightarrow> img_data \<Rightarrow> bool" where
  "candidate pg img =
     (img_page_number img = pg \<and> truthy (img_coordinates img) \<and> has_center (img_coordinates img))"

definition center_distance :: "real \<Rightarrow> real \<Rightarrow> img_data \<Rightarrow> real" where
  "center_distance cx cy img =
     (case bbox_center (img_coordinates img) of
        Center ix iy \<Rightarrow> euclid cx cy ix iy
      | _ \<Rightarrow> 0)"

text \<open>
  The element at index \<open>i\<close> passes the page filter of \<open>categorize_elements\<close>.
\<close>

definition retained :: "element list \<Rightarrow> int \<Rightarrow> nat \<Rightarrow> bool" where
  "retained els pages i = (beyond_page_limit (els ! i) pages = Inr False)"

subsection \<open>Sample inputs\<close>

text \<open>
  An axis-parallel box as a list of four corner lists and as a tuple of four corner tuples,
  an image dictionary, an element with a page number and coordinates, and a table element
  with its HTML markup.
\<close>

definition box :: "real \<Rightarrow> real \<Rightarrow> real \<Rightarrow> real \<Rightarrow> pyval" where
  "box x0 y0 x1 y1 =
     PyList [PyList [PyNum x0, PyNum y0], PyList [PyNum x1, PyNum y0],
             PyList [PyNum x1, PyNum y1], PyList [PyNum x0, PyNum y1]]"

definition tuple_box :: "real \<Rightarrow> real \<Rightarrow> real \<Rightarrow> real \<Rightarrow> pyval" where
  "tuple_box x0 y0 x1 y1 =
     PyTuple [PyTuple [PyNum x0, PyNum y0], PyTuple [PyNum x1, PyNum y0],
              PyTuple [PyNum x1, PyNum y1], PyTuple [PyNum x0, PyNum y1]]"

definition sample_image :: "pyval \<Rightarrow> pyval \<Rightarrow> img_data" where
  "sample_image pg c = \<lparr>img_image_path = None, img_page_number = pg, img_coordinates = c\<rparr>"

definition sample_element :: "category \<Rightarrow> string \<Rightarrow> pyval \<Rightarrow> pyval \<Rightarrow> element" where
  "sample_element cat txt pg c =
     \<lparr>category = cat, elem_text = txt,
      metadata = \<lparr>page_number = Some pg, coordinates = Some c,
                  image_path = None, text_as_html = None\<rparr>\<rparr>"

definition sample_table :: "string \<Rightarrow> pyval \<Rightarrow> element" where
  "sample_table h pg =
     \<lparr>category = Table, elem_text = [],
      metadata = \<lparr>page_number = Some pg, coordinates = None,
                  image_path = None, text_as_html = Some h\<rparr>\<rparr>"

subsection \<open>Sample models\<close>

text \<open>
  The seconds suggested by an outcome, a model with the same outcome at every call, a
  model whose first call differs from the later ones, a model that gives the listed
  outcomes call after call, a \<open>time.sleep\<close> that accepts every duration, and one that
  refuses a duration of \<open>2 ^ 63\<close> nanoseconds or more, as with a 64-bit clock.
\<close>

fun retry_delay_of :: "outcome \<Rightarrow> int option" where
  "retry_delay_of (ResourceExhausted d) = d"
| "retry_delay_of out = None"

definition always :: "outcome \<Rightarrow> 'p llm" where
  "always out n p = out"

definition first_then :: "outcome \<Rightarrow> outcome \<Rightarrow> 'p llm" where
  "first_then a b n p = (if n = 0 then a else b)"

definition replies :: "outcome list \<Rightarrow> 'p llm" where
  "replies outs n p = (if n < length outs then outs ! n else OtherException)"

definition no_overflow :: "int \<Rightarrow> bool" where
  "no_overflow seconds = False"

definition sleep_overflows :: "int \<Rightarrow> bool" where
  "sleep_overflows seconds = (2 ^ 63 \<le> seconds * 10 ^ 9)"

text \<open>The suggested delay of the \<open>j\<close>-th call from now, none counting as 0.\<close>

definition hint :: "'p llm \<Rightarrow> 'p \<Rightarrow> world \<Rightarrow> nat \<Rightarrow> int" where
  "hint model cp w j =
     (case retry_delay_of (model (calls w + j) cp) of None \<Rightarrow> 0 | Some s \<Rightarrow> s)"

definition exhausted_message :: "string \<Rightarrow> string \<Rightarrow> string" where
  "exhausted_message element_type element_key =
     ''Failed to summarize '' @ element_type @ '' '' @ element_key
       @ '' after multiple retries.''"

subsection \<open>Slots of a batch\<close>

text \<open>
  An outcome that is an exception; the slot the text and table loops fill for an item from
  the outcome of its call; and the other two messages of the image summarizer.
\<close>

fun failed :: "outcome \<Rightarrow> bool" where
  "failed (Returned s) = False"
| "failed out = True"

definition slot_of :: "(string \<Rightarrow> string) \<Rightarrow> string \<Rightarrow> outcome \<Rightarrow> string" where
  "slot_of failure item out = (case out of Returned s \<Rightarrow> s | _ \<Rightarrow> failure item)"

text \<open>
  The same for an item of the table loop, which can be \<open>None\<close>: the slot, or the
  exception of the handler.
\<close>

definition table_slot :: "string option \<Rightarrow> outcome \<Rightarrow> pyerr + string" where
  "table_slot table out = (case out of Returned s \<Rightarrow> Inr s | _ \<Rightarrow> table_failure table)"

definition error_message :: "string \<Rightarrow> string \<Rightarrow> string" where
  "error_message element_type element_key =
     ''Error summarizing '' @ element_type @ '' '' @ element_key @ ''.''"

definition processing_message :: "string \<Rightarrow> string" where
  "processing_message key = ''Error processing image with key '' @ key @ ''.''"

text \<open>
  The key the image summarizer passes to the retrying call, and the strings it counts or
  produces as failures.
\<close>

definition image_element_key :: "(pyval \<Rightarrow> string) \<Rightarrow> pyval \<Rightarrow> image_info \<Rightarrow> string" where
  "image_element_key py_str image_key info =
     ''page '' @ py_str (info_page_number info) @ '' ('' @ py_str image_key @ '')''"

definition image_failure_string :: "string \<Rightarrow> bool" where
  "image_failure_string s =
     (sublist ''Error summarizing image'' s \<or> sublist ''Failed to summarize image'' s
      \<or> prefix ''Error processing image with key '' s)"

text \<open>
  The prompt of an item of the image batch once its data is decoded, and the retrying
  call the loop makes for it in the world \<open>w\<close>.
\<close>

definition image_prompt_of ::
  "(pyval \<Rightarrow> string) \<Rightarrow> pyval \<times> image_info \<Rightarrow> 'b \<Rightarrow> 'b image_prompt" where
  "image_prompt_of py_str item decoded =
     prompt_parts py_str (info_page_number (snd item)) (caption_text (snd item)) decoded"

definition image_call ::
  "(int \<Rightarrow> bool) \<Rightarrow> 'b image_prompt llm \<Rightarrow> (pyval \<Rightarrow> string) \<Rightarrow> pyval \<times> image_info
     \<Rightarrow> 'b \<Rightarrow> world \<Rightarrow> (pyerr + string) \<times> world" where
  "image_call sleep_raises model py_str item decoded w =
     make_llm_call_with_retry_multimodal sleep_raises model
       (image_prompt_of py_str item decoded)
       ''image'' (image_element_key py_str (fst item) (snd item)) 5 w"

text \<open>
  Whether an exception reaches the handler of the loop for an item processed in the world
  \<open>w\<close> (from decoding or out of the retrying call), and the string the item then gets
  in the output: the message of the handler, or what the retrying call returned.
\<close>

definition image_raised ::
  "(int \<Rightarrow> bool) \<Rightarrow> 'b image_prompt llm \<Rightarrow> (pyval \<Rightarrow> string) \<Rightarrow> (string \<Rightarrow> 'b option)
     \<Rightarrow> pyval \<times> image_info \<Rightarrow> world \<Rightarrow> bool" where
  "image_raised sleep_raises model py_str b64decode item w =
     (case b64decode (base64_data (snd item)) of
        None \<Rightarrow> True
      | Some decoded \<Rightarrow>
          (case fst (image_call sleep_raises model py_str item decoded w) of
             Inl e \<Rightarrow> True
           | Inr summary \<Rightarrow> False))"

definition image_result ::
  "(int \<Rightarrow> bool) \<Rightarrow> 'b image_prompt llm \<Rightarrow> (pyval \<Rightarrow> string) \<Rightarrow> (string \<Rightarrow> 'b option)
     \<Rightarrow> pyval \<times> image_info \<Rightarrow> world \<Rightarrow> string" where
  "image_result sleep_raises model py_str b64decode item w =
     (case b64decode (base64_data (snd item)) of
        None \<Rightarrow> processing_message (py_str (fst item))
      | Some decoded \<Rightarrow>
          (case fst (image_call sleep_raises model py_str item decoded w) of
             Inl e \<Rightarrow> processing_message (py_str (fst item))
           | Inr summary \<Rightarrow> summary))"

text \<open>The world after the loop has processed an item in the world \<open>w\<close>.\<close>

definition image_world ::
  "(int \<Rightarrow> bool) \<Rightarrow> 'b image_prompt llm \<Rightarrow> (pyval \<Rightarrow> string) \<Rightarrow> (string \<Rightarrow> 'b option)
     \<Rightarrow> pyval \<times> image_info \<Rightarrow> world \<Rightarrow> world" where
  "image_world sleep_raises model py_str b64decode item w =
     (case b64decode (base64_data (snd item)) of
        None \<Rightarrow> w
      | Some decoded \<Rightarrow> snd (image_call sleep_raises model py_str item decoded w))"

text \<open>
  What a slot of the image batch can hold for an item: one of the three failure messages
  for that item, or a text the model returned on the prompt of that item.
\<close>

definition image_slot ::
  "'b image_prompt llm \<Rightarrow> (pyval \<Rightarrow> string) \<Rightarrow> (string \<Rightarrow> 'b option)
     \<Rightarrow> pyval \<times> image_info \<Rightarrow> string \<Rightarrow> bool" where
  "image_slot model py_str b64decode item s =
     (s = processing_message (py_str (fst item))
      \<or> s = error_message ''image'' (image_element_key py_str (fst item) (snd item))
      \<or> s = exhausted_message ''image'' (image_element_key py_str (fst item) (snd item))
      \<or> (\<exists>n decoded. b64decode (base64_data (snd item)) = Some decoded
            \<and> model n (image_prompt_of py_str item decoded) = Returned s))"

text \<open>
  The state of the image loop after the first \<open>i\<close> items of the dictionary: the
  summaries so far, the counter and the world.
\<close>

definition image_state ::
  "(int \<Rightarrow> bool) \<Rightarrow> 'b image_prompt llm \<Rightarrow> (pyval \<Rightarrow> string) \<Rightarrow> (string \<Rightarrow> 'b option)
     \<Rightarrow> image_info pydict \<Rightarrow> world \<Rightarrow> nat \<Rightarrow> string list \<times> nat \<times> world" where
  "image_state sleep_raises model py_str b64decode d w i =
     image_to_text_summarizer sleep_raises model py_str b64decode (take i d) w"

text \<open>A formatting function and a sample dictionary entry for the examples.\<close>

definition sample_py_str :: "pyval \<Rightarrow> string" where
  "sample_py_str v = ''v''"

definition sample_info :: image_info where
  "sample_info = \<lparr>base64_data = [], caption_text = [], info_page_number = PyNum 1\<rparr>"

definition undecodable_info :: image_info where
  "undecodable_info = \<lparr>base64_data = ''*'', caption_text = [], info_page_number = PyNum 1\<rparr>"

definition sample_b64decode :: "string \<Rightarrow> string option" where
  "sample_b64decode data = (if data = ''*'' then None else Some data)"

subsection \<open>Bundles\<close>

text \<open>
  The key under which the second loop of \<open>generate_caption_image_page_number\<close> files an
  image element: none when the page number or the coordinates are absent, or when the
  coordinates do not convert (the element is then skipped). The payload available for a
  key. What an entry of the result is for its key: the key of some image, carrying that
  image's page number and the payload, with an empty caption or the text of one of the
  captions (then the payload exists).
\<close>

definition element_key :: "element \<Rightarrow> pyval option" where
  "element_key el =
     (case page_number (metadata el) of
        None \<Rightarrow> None
      | Some pg \<Rightarrow>
          (case coordinates (metadata el) of
             None \<Rightarrow> None
           | Some c \<Rightarrow>
               (case caption_stage_key pg (points_or_self c) of
                  Inl e \<Rightarrow> None
                | Inr k \<Rightarrow> Some k)))"

definition payload :: "string pydict \<Rightarrow> pyval \<Rightarrow> string" where
  "payload image_base64_dict k =
     (case map_of image_base64_dict k of Some data \<Rightarrow> data | None \<Rightarrow> [])"

definition entry_ok ::
  "element list \<Rightarrow> element list \<Rightarrow> string pydict \<Rightarrow> pyval \<Rightarrow> image_info \<Rightarrow> bool" where
  "entry_ok images captions image_base64_dict k info =
     ((\<exists>el\<in>set images. element_key el = Some k
          \<and> page_number (metadata el) = Some (info_page_number info))
      \<and> base64_data info = payload image_base64_dict k
      \<and> (caption_text info = []
          \<or> (\<exists>cap\<in>set captions. caption_text info = elem_text cap
                \<and> map_of image_base64_dict k \<noteq> None)))"

text \<open>A dictionary of bundles all of whose entries are as described.\<close>

definition bundles_ok ::
  "element list \<Rightarrow> element list \<Rightarrow> string pydict \<Rightarrow> image_info pydict \<Rightarrow> bool" where
  "bundles_ok images captions image_base64_dict d =
     (distinct (map fst d)
      \<and> (\<forall>(k, info)\<in>set d. entry_ok images captions image_base64_dict k info))"

section \<open>Geometry keys agree across stages\<close>




section \<open>The nearest image of a caption\<close>

lemma bbox_center_nonempty_list: "bbox_center v = Center x y \<Longrightarrow> nonempty_list v"
  by (cases v) (simp_all add: bbox_center_def nonempty_list_def split: if_splits)

lemma has_center_nonempty_list: "has_center v \<Longrightarrow> nonempty_list v"
  by (auto simp: has_center_def split: center_result.splits dest: bbox_center_nonempty_list)

lemma closest_loop_candidate_step:
  "candidate pg img \<Longrightarrow>
   closest_loop cx cy pg (img # imgs) (m, c) =
     (if below (center_distance cx cy img) m
      then closest_loop cx cy pg imgs (Some (center_distance cx cy img), Some img)
      else closest_loop cx cy pg imgs (m, c))"
  by (cases "bbox_center (img_coordinates img)")
     (simp_all add: candidate_def has_center_def center_distance_def Let_def)

lemma closest_loop_other_step:
  "\<not> candidate pg img \<Longrightarrow>
   closest_loop cx cy pg (img # imgs) (m, c) = closest_loop cx cy pg imgs (m, c)"
  by (cases "bbox_center (img_coordinates img)")
     (auto simp add: candidate_def has_center_def)

lemma closest_loop_skip:
  assumes "\<And>img. candidate pg img \<Longrightarrow> P img"
  shows "closest_loop cx cy pg (filter P imgs) acc = closest_loop cx cy pg imgs acc"
proof (induction imgs arbitrary: acc)
  case Nil
  show ?case by simp
next
  case (Cons img imgs)
  obtain m c where acc: "acc = (m, c)" by (cases acc)
  show ?case
  proof (cases "candidate pg img")
    case True
    then have "P img" by (rule assms)
    then show ?thesis
      by (simp add: acc Cons.IH closest_loop_candidate_step[OF True] del: closest_loop.simps)
  next
    case False
    show ?thesis
      by (cases "P img")
         (simp_all add: acc Cons.IH closest_loop_other_step[OF False] del: closest_loop.simps)
  qed
qed

lemma try_map_Inr_D: "try_map f xs = Inr ys \<Longrightarrow> map f xs = map Inr ys"
proof (induction xs arbitrary: ys)
  case Nil
  then show ?case by simp
next
  case (Cons x xs)
  from Cons.prems obtain y zs where "f x = Inr y" "try_map f xs = Inr zs" "ys = y # zs"
    by (auto split: sum.splits)
  then show ?case using Cons.IH[of zs] by simp
qed

lemma closest_loop_result:
  "snd (closest_loop cx cy pg imgs (m, c)) = Some r \<Longrightarrow>
     c = Some r \<or> (r \<in> set imgs \<and> candidate pg r)"
proof (induction imgs arbitrary: m c)
  case Nil
  then show ?case by simp
next
  case (Cons img imgs)
  show ?case
  proof (cases "candidate pg img")
    case True
    show ?thesis
    proof (cases "below (center_distance cx cy img) m")
      case b: True
      with Cons.prems have "snd (closest_loop cx cy pg imgs (Some (center_distance cx cy img), Some img)) = Some r"
        by (simp add: closest_loop_candidate_step[OF True] del: closest_loop.simps)
      from Cons.IH[OF this] show ?thesis using True by auto
    next
      case b: False
      with Cons.prems have "snd (closest_loop cx cy pg imgs (m, c)) = Some r"
        by (simp add: closest_loop_candidate_step[OF True] del: closest_loop.simps)
      from Cons.IH[OF this] show ?thesis by auto
    qed
  next
    case False
    with Cons.prems have "snd (closest_loop cx cy pg imgs (m, c)) = Some r"
      by (simp add: closest_loop_other_step[OF False] del: closest_loop.simps)
    from Cons.IH[OF this] show ?thesis by auto
  qed
qed

lemma bbox_center_box:
  "bbox_center (box x0 y0 x1 y1) =
     Center ((min x0 x1 + max x0 x1) / 2) ((min y0 y1 + max y0 y1) / 2)"
  by (auto simp add: box_def bbox_center_def min_max_mid_def min_def max_def)

text \<open>
  Claim C2 fails on the code. The claim's own example, with the coordinates given as
  tuples of tuples (a form that the comments of the function name and that the key
  construction of its caller accepts): a caption centered at (9, 9) and same-page
  images centered at (0, 0), (10, 10) and (100, 100). The function returns \<open>None\<close>, not
  the image at
  (10, 10). It also returns \<open>None\<close> for the caption in list form when the images are in
  tuple form; and when the image at (10, 10) is in tuple form and the one at (100, 100)
  in list form, the nearer one is skipped and the farther one returned.
\<close>

theorem find_closest_misses_tuple_coordinates:
  "find_closest_image
       (sample_element FigureCaption ''Figure 1'' (PyNum 1) (tuple_box 8 8 10 10))
       [sample_image (PyNum 1) (tuple_box (- 1) (- 1) 1 1),
        sample_image (PyNum 1) (tuple_box 9 9 11 11),
        sample_image (PyNum 1) (tuple_box 99 99 101 101)] = None
   \<and> find_closest_image
       (sample_element FigureCaption ''Figure 1'' (PyNum 1) (box 8 8 10 10))
       [sample_image (PyNum 1) (tuple_box (- 1) (- 1) 1 1),
        sample_image (PyNum 1) (tuple_box 9 9 11 11),
        sample_image (PyNum 1) (tuple_box 99 99 101 101)] = None
   \<and> find_closest_image
       (sample_element FigureCaption ''Figure 1'' (PyNum 1) (box 8 8 10 10))
       [sample_image (PyNum 1) (tuple_box 9 9 11 11),
        sample_image (PyNum 1) (box 99 99 101 101)]
     = Some (sample_image (PyNum 1) (box 99 99 101 101))"
proof -
  have t: "bbox_center (tuple_box x0 y0 x1 y1) = Unexpected_format" for x0 y0 x1 y1
    by (simp add: bbox_center_def tuple_box_def)
  have tt: "truthy (tuple_box x0 y0 x1 y1)" for x0 y0 x1 y1
    by (simp add: tuple_box_def)
  have p: "points_or_self (box x0 y0 x1 y1) = box x0 y0 x1 y1" "truthy (box x0 y0 x1 y1)"
    for x0 y0 x1 y1
    by (simp_all add: box_def)
  have a: "find_closest_image
       (sample_element FigureCaption ''Figure 1'' (PyNum 1) (tuple_box 8 8 10 10))
       [sample_image (PyNum 1) (tuple_box (- 1) (- 1) 1 1),
        sample_image (PyNum 1) (tuple_box 9 9 11 11),
        sample_image (PyNum 1) (tuple_box 99 99 101 101)] = None"
    by (simp add: find_closest_image_def sample_element_def tuple_box_def bbox_center_def)
  have b: "find_closest_image
       (sample_element FigureCaption ''Figure 1'' (PyNum 1) (box 8 8 10 10))
       [sample_image (PyNum 1) (tuple_box (- 1) (- 1) 1 1),
        sample_image (PyNum 1) (tuple_box 9 9 11 11),
        sample_image (PyNum 1) (tuple_box 99 99 101 101)] = None"
    by (simp add: find_closest_image_def sample_element_def sample_image_def bbox_center_box
          t tt p)
  have c: "find_closest_image
       (sample_element FigureCaption ''Figure 1'' (PyNum 1) (box 8 8 10 10))
       [sample_image (PyNum 1) (tuple_box 9 9 11 11),
        sample_image (PyNum 1) (box 99 99 101 101)]
     = Some (sample_image (PyNum 1) (box 99 99 101 101))"
    by (simp add: find_closest_image_def sample_element_def sample_image_def bbox_center_box
          t tt p)
  show ?thesis by (rule conjI[OF a conjI[OF b c]])
qed

text \<open>
  Claim C3. When no candidate has the caption's page number the result is \<open>None\<close>, and
  dropping the candidates of other pages never changes the result: they have no
  influence, however near they are.
\<close>

theorem find_closest_page_isolation:
  "((\<forall>img\<in>set images. Some (img_page_number img) \<noteq> page_number (metadata caption))
      \<longrightarrow> find_closest_image caption images = None)
   \<and> find_closest_image caption
        (filter (\<lambda>img. Some (img_page_number img) = page_number (metadata caption)) images)
      = find_closest_image caption images"
proof -
  let ?same = "\<lambda>img. Some (img_page_number img) = page_number (metadata caption)"
  have eq: "find_closest_image caption (filter ?same images) = find_closest_image caption images"
  proof (cases "page_number (metadata caption)")
    case None
    then show ?thesis by (simp add: find_closest_image_def split: option.splits)
  next
    case (Some pg)
    have "closest_loop cx cy pg (filter (\<lambda>img. img_page_number img = pg) images) acc
            = closest_loop cx cy pg images acc" for cx cy acc
      by (rule closest_loop_skip) (simp add: candidate_def)
    then show ?thesis
      using Some by (simp add: find_closest_image_def split: option.splits center_result.splits)
  qed
  have "find_closest_image caption images = None"
    if "\<forall>img\<in>set images. Some (img_page_number img) \<noteq> page_number (metadata caption)"
  proof -
    from that have "filter ?same images = []" by (simp add: filter_empty_conv)
    then have "find_closest_image caption images = find_closest_image caption []"
      using eq by simp
    then show ?thesis
      by (simp add: find_closest_image_def split: option.splits center_result.splits)
  qed
  with eq show ?thesis by blast
qed

theorem find_closest_page_isolation_witness:
  "Some (img_page_number (sample_image (PyNum 2) (box 9 9 11 11)))
     \<noteq> page_number (metadata (sample_element FigureCaption ''Figure 1'' (PyNum 1) (box 8 8 10 10)))
   \<and> find_closest_image (sample_element FigureCaption ''Figure 1'' (PyNum 1) (box 8 8 10 10))
        [sample_image (PyNum 2) (box 9 9 11 11)] = None"
  using find_closest_page_isolation
    [where images = "[sample_image (PyNum 2) (box 9 9 11 11)]"
       and caption = "sample_element FigureCaption ''Figure 1'' (PyNum 1) (box 8 8 10 10)"]
  by (simp add: sample_image_def sample_element_def)

text \<open>
  Claim C10. A caption whose coordinates (the \<open>points\<close> of the coordinates object, or the
  attribute itself when it has no \<open>points\<close>) are present but not a non-empty list, such as
  the tuple of tuples used in the keys or an empty list, gets \<open>None\<close> whatever the
  candidates are; the function is total, so nothing is raised. A candidate whose
  coordinates are not a non-empty list is never returned, and removing such candidates
  does not change the result.
\<close>

theorem find_closest_needs_lists:
  "((\<exists>c. coordinates (metadata caption) = Some c \<and> \<not> nonempty_list (points_or_self c))
      \<longrightarrow> find_closest_image caption images = None)
   \<and> (\<forall>r. find_closest_image caption images = Some r
          \<longrightarrow> r \<in> set images \<and> nonempty_list (img_coordinates r))
   \<and> find_closest_image caption (filter (\<lambda>img. nonempty_list (img_coordinates img)) images)
      = find_closest_image caption images"
proof -
  have a: "find_closest_image caption images = None"
    if "\<exists>c. coordinates (metadata caption) = Some c \<and> \<not> nonempty_list (points_or_self c)"
  proof -
    from that obtain c where c: "coordinates (metadata caption) = Some c"
      and n: "\<not> nonempty_list (points_or_self c)" by blast
    from n have "\<And>x y. bbox_center (points_or_self c) \<noteq> Center x y"
      using bbox_center_nonempty_list by blast
    then show ?thesis using c
      by (simp add: find_closest_image_def split: option.splits center_result.splits)
  qed
  have b: "r \<in> set images \<and> nonempty_list (img_coordinates r)"
    if "find_closest_image caption images = Some r" for r
  proof -
    from that obtain cx cy pg where "snd (closest_loop cx cy pg images (None, None)) = Some r"
      by (auto simp: find_closest_image_def split: option.splits center_result.splits)
    from closest_loop_result[OF this] have "r \<in> set images" "candidate pg r" by simp_all
    then show ?thesis by (simp add: candidate_def has_center_nonempty_list)
  qed
  have "closest_loop cx cy pg (filter (\<lambda>img. nonempty_list (img_coordinates img)) images) acc
          = closest_loop cx cy pg images acc" for cx cy pg acc
    by (rule closest_loop_skip) (simp add: candidate_def has_center_nonempty_list)
  then have c: "find_closest_image caption (filter (\<lambda>img. nonempty_list (img_coordinates img)) images)
      = find_closest_image caption images"
    by (simp add: find_closest_image_def split: option.splits center_result.splits)
  from a b c show ?thesis by blast
qed

theorem find_closest_needs_lists_witness:
  "coordinates (metadata (sample_element FigureCaption ''Figure 1'' (PyNum 1) (tuple_box 8 8 10 10)))
     = Some (tuple_box 8 8 10 10)
   \<and> \<not> nonempty_list (points_or_self (tuple_box 8 8 10 10))
   \<and> find_closest_image
        (sample_element FigureCaption ''Figure 1'' (PyNum 1) (tuple_box 8 8 10 10))
        [sample_image (PyNum 1) (box 9 9 11 11)] = None"
  using find_closest_needs_lists
    [where images = "[sample_image (PyNum 1) (box 9 9 11 11)]"
       and caption = "sample_element FigureCaption ''Figure 1'' (PyNum 1) (tuple_box 8 8 10 10)"]
  by (simp add: sample_element_def tuple_box_def nonempty_list_def)

section \<open>Tables and their preceding text\<close>

lemma categorize_loop_tables:
  "categorize_loop els pages is (texts, tables) = Inr (texts', tables') \<Longrightarrow>
     tables' = tables @ map (table_with_summary_appended els)
                 (filter (\<lambda>i. retained els pages i \<and> category (els ! i) = Table) is)
     \<and> texts' = texts @ map (\<lambda>i. elem_text (els ! i))
                 (filter (\<lambda>i. retained els pages i \<and> text_like (category (els ! i))) is)"
proof (induction "is" arbitrary: texts tables)
  case Nil
  then show ?case by simp
next
  case (Cons i "is")
  show ?case
  proof (cases "beyond_page_limit (els ! i) pages")
    case (Inl e)
    with Cons.prems show ?thesis by (simp add: Let_def)
  next
    case (Inr b)
    show ?thesis
    proof (cases b)
      case True
      with Inr Cons.prems have "categorize_loop els pages is (texts, tables) = Inr (texts', tables')"
        by (simp add: Let_def)
      from Cons.IH[OF this] show ?thesis using Inr True by (simp add: retained_def)
    next
      case False
      note r = Inr False
      show ?thesis
      proof (cases "text_like (category (els ! i))")
        case True
        then have nt: "category (els ! i) \<noteq> Table" by (auto simp: text_like_def)
        from True r Cons.prems have
          "categorize_loop els pages is (texts @ [elem_text (els ! i)], tables) = Inr (texts', tables')"
          by (simp add: Let_def split: if_splits)
        from Cons.IH[OF this] show ?thesis using r True nt by (simp add: retained_def)
      next
        case nl: False
        show ?thesis
        proof (cases "category (els ! i) = Table")
          case True
          from True nl r Cons.prems have
            "categorize_loop els pages is (texts, tables @ [table_with_summary_appended els i])
               = Inr (texts', tables')"
            by (simp add: Let_def split: if_splits)
          from Cons.IH[OF this] show ?thesis using r True nl by (simp add: retained_def)
        next
          case False
          from False nl r Cons.prems have
            "categorize_loop els pages is (texts, tables) = Inr (texts', tables')"
            by (simp add: Let_def)
          from Cons.IH[OF this] show ?thesis using r False nl by (simp add: retained_def)
        qed
      qed
    qed
  qed
qed

lemma categorize_loop_returns:
  "\<forall>i\<in>set is. \<exists>r. page_number (metadata (els ! i)) = Some (PyNum r) \<Longrightarrow>
     \<exists>res. categorize_loop els pages is acc = Inr res"
proof (induction "is" arbitrary: acc)
  case Nil
  show ?case by simp
next
  case (Cons i "is")
  obtain texts tables where acc: "acc = (texts, tables)" by (cases acc)
  from Cons.prems obtain r where r: "page_number (metadata (els ! i)) = Some (PyNum r)" by auto
  from Cons.prems have rest: "\<forall>i\<in>set is. \<exists>r. page_number (metadata (els ! i)) = Some (PyNum r)"
    by simp
  have "beyond_page_limit (els ! i) pages
          = Inr (if pages > 0 then r > of_int pages else False)"
    by (simp add: beyond_page_limit_def r)
  then obtain b where b: "beyond_page_limit (els ! i) pages = Inr b" by blast
  show ?case
    using Cons.IH[OF rest] by (cases b) (simp_all add: acc b r Let_def)
qed

lemma table_string_cases:
  assumes "0 < i" "text_as_html (metadata (els ! i)) = Some h"
  shows "table_with_summary_appended els i =
     (if text_like (category (els ! (i - 1))) \<and> elem_text (els ! (i - 1)) \<noteq> []
         \<and> length (elem_text (els ! (i - 1))) < 200
      then Some (elem_text (els ! (i - 1)) @ [CHR 0x0A, CHR 0x0A] @ h)
      else Some h)"
  using assms by (simp add: table_with_summary_appended_def Let_def)

text \<open>
  Claim C7. The strings of \<open>tables_html\<close> are those of the table elements that pass the
  page filter, in stream order, and the function returns whenever every page number is a
  number. For a table at index \<open>i > 0\<close> with HTML markup \<open>h\<close>: when the element at
  \<open>i - 1\<close> of the unfiltered stream is text-like and its text is non-empty and shorter
  than 200 characters, the string is that text, two newlines, and \<open>h\<close>; otherwise it is
  \<open>h\<close>. A text of 199 characters is prepended, one of 200 is not.
\<close>

theorem table_context_threshold:
  "(\<forall>texts tables. categorize_elements els pages = Inr (texts, tables) \<longrightarrow>
      tables = map (table_with_summary_appended els)
                 (filter (\<lambda>i. retained els pages i \<and> category (els ! i) = Table)
                    [0..<length els]))
   \<and> ((\<forall>el\<in>set els. \<exists>r. page_number (metadata el) = Some (PyNum r)) \<longrightarrow>
        (\<exists>texts tables. categorize_elements els pages = Inr (texts, tables)))
   \<and> (\<forall>i h. 0 < i \<and> i < length els \<and> category (els ! i) = Table
          \<and> text_as_html (metadata (els ! i)) = Some h \<longrightarrow>
        table_with_summary_appended els i =
          (if text_like (category (els ! (i - 1))) \<and> elem_text (els ! (i - 1)) \<noteq> []
              \<and> length (elem_text (els ! (i - 1))) < 200
           then Some (elem_text (els ! (i - 1)) @ [CHR 0x0A, CHR 0x0A] @ h)
           else Some h))
   \<and> (\<forall>i h. 0 < i \<and> i < length els \<and> category (els ! i) = Table
          \<and> text_as_html (metadata (els ! i)) = Some h
          \<and> text_like (category (els ! (i - 1)))
          \<and> length (elem_text (els ! (i - 1))) = 199 \<longrightarrow>
        table_with_summary_appended els i
          = Some (elem_text (els ! (i - 1)) @ [CHR 0x0A, CHR 0x0A] @ h))
   \<and> (\<forall>i h. 0 < i \<and> i < length els \<and> category (els ! i) = Table
          \<and> text_as_html (metadata (els ! i)) = Some h
          \<and> text_like (category (els ! (i - 1)))
          \<and> length (elem_text (els ! (i - 1))) = 200 \<longrightarrow>
        table_with_summary_appended els i = Some h)"
proof -
  have p1: "\<forall>texts tables. categorize_elements els pages = Inr (texts, tables) \<longrightarrow>
      tables = map (table_with_summary_appended els)
                 (filter (\<lambda>i. retained els pages i \<and> category (els ! i) = Table)
                    [0..<length els])"
    using categorize_loop_tables[of els pages "[0..<length els]" "[]" "[]"]
    by (simp add: categorize_elements_def)
  have p2: "(\<forall>el\<in>set els. \<exists>r. page_number (metadata el) = Some (PyNum r)) \<longrightarrow>
        (\<exists>texts tables. categorize_elements els pages = Inr (texts, tables))"
  proof
    assume a: "\<forall>el\<in>set els. \<exists>r. page_number (metadata el) = Some (PyNum r)"
    have "\<forall>i\<in>set [0..<length els]. \<exists>r. page_number (metadata (els ! i)) = Some (PyNum r)"
      using a by simp
    from categorize_loop_returns[OF this, of pages "([], [])"]
    show "\<exists>texts tables. categorize_elements els pages = Inr (texts, tables)"
      by (simp add: categorize_elements_def)
  qed
  have p3: "\<forall>i h. 0 < i \<and> i < length els \<and> category (els ! i) = Table
          \<and> text_as_html (metadata (els ! i)) = Some h \<longrightarrow>
        table_with_summary_appended els i =
          (if text_like (category (els ! (i - 1))) \<and> elem_text (els ! (i - 1)) \<noteq> []
              \<and> length (elem_text (els ! (i - 1))) < 200
           then Some (elem_text (els ! (i - 1)) @ [CHR 0x0A, CHR 0x0A] @ h)
           else Some h)"
    by (simp add: table_string_cases)
  have p4: "\<forall>i h. 0 < i \<and> i < length els \<and> category (els ! i) = Table
          \<and> text_as_html (metadata (els ! i)) = Some h
          \<and> text_like (category (els ! (i - 1)))
          \<and> length (elem_text (els ! (i - 1))) = 199 \<longrightarrow>
        table_with_summary_appended els i
          = Some (elem_text (els ! (i - 1)) @ [CHR 0x0A, CHR 0x0A] @ h)"
  proof (intro allI impI)
    fix i h
    assume a: "0 < i \<and> i < length els \<and> category (els ! i) = Table
          \<and> text_as_html (metadata (els ! i)) = Some h
          \<and> text_like (category (els ! (i - 1)))
          \<and> length (elem_text (els ! (i - 1))) = 199"
    then have "elem_text (els ! (i - 1)) \<noteq> []" by auto
    with a show "table_with_summary_appended els i
          = Some (elem_text (els ! (i - 1)) @ [CHR 0x0A, CHR 0x0A] @ h)"
      by (simp add: table_string_cases)
  qed
  have p5: "\<forall>i h. 0 < i \<and> i < length els \<and> category (els ! i) = Table
          \<and> text_as_html (metadata (els ! i)) = Some h
          \<and> text_like (category (els ! (i - 1)))
          \<and> length (elem_text (els ! (i - 1))) = 200 \<longrightarrow>
        table_with_summary_appended els i = Some h"
    by (simp add: table_string_cases)
  show ?thesis
    by (rule conjI[OF p1 conjI[OF p2 conjI[OF p3 conjI[OF p4 p5]]]])
qed

theorem table_context_threshold_witness:
  "(\<exists>texts. categorize_elements
       [sample_element NarrativeText (replicate 199 CHR ''a'') (PyNum 1) PyNone,
        sample_table ''<table/>'' (PyNum 1),
        sample_element NarrativeText (replicate 200 CHR ''a'') (PyNum 1) PyNone,
        sample_table ''<table/>'' (PyNum 1)] 100
     = Inr (texts, [Some (replicate 199 CHR ''a'' @ [CHR 0x0A, CHR 0x0A] @ ''<table/>''),
                    Some ''<table/>'']))"
proof -
  let ?els = "[sample_element NarrativeText (replicate 199 CHR ''a'') (PyNum 1) PyNone,
        sample_table ''<table/>'' (PyNum 1),
        sample_element NarrativeText (replicate 200 CHR ''a'') (PyNum 1) PyNone,
        sample_table ''<table/>'' (PyNum 1)]"
  note inst = table_context_threshold[where els = ?els and pages = 100]
  have pages: "\<forall>el\<in>set ?els. \<exists>r. page_number (metadata el) = Some (PyNum r)"
    by (simp add: sample_element_def sample_table_def)
  from inst[THEN conjunct2, THEN conjunct1, THEN mp, OF pages]
  obtain texts tables where run: "categorize_elements ?els 100 = Inr (texts, tables)" by blast
  from inst[THEN conjunct1, rule_format, OF run]
  have t: "tables = map (table_with_summary_appended ?els)
             (filter (\<lambda>i. retained ?els 100 i \<and> category (?els ! i) = Table) [0..<length ?els])" .
  have idx: "[0..<length ?els] = [0, 1, 2, 3]" by (simp add: upt_rec)
  have f: "filter (\<lambda>i. retained ?els 100 i \<and> category (?els ! i) = Table) [0, 1, 2, 3] = [1, 3]"
    by (simp add: retained_def beyond_page_limit_def sample_element_def sample_table_def)
  have e1: "table_with_summary_appended ?els 1
              = Some (replicate 199 CHR ''a'' @ [CHR 0x0A, CHR 0x0A] @ ''<table/>'')"
    using inst[THEN conjunct2, THEN conjunct2, THEN conjunct2, THEN conjunct1, rule_format,
        of 1 "''<table/>''"]
    by (simp add: sample_element_def sample_table_def text_like_def)
  have e3: "table_with_summary_appended ?els 3 = Some ''<table/>''"
    using inst[THEN conjunct2, THEN conjunct2, THEN conjunct2, THEN conjunct2, rule_format,
        of 3 "''<table/>''"]
    by (simp add: sample_element_def sample_table_def text_like_def)
  have "tables = [Some (replicate 199 CHR ''a'' @ [CHR 0x0A, CHR 0x0A] @ ''<table/>''),
                  Some ''<table/>'']"
    unfolding t idx f using e1 e3 by simp
  with run show ?thesis by blast
qed

section \<open>The retrying call\<close>

lemma map_upt_Suc_shift: "map f [0..<Suc k] = f 0 # map (\<lambda>j. f (Suc j)) [0..<k]"
proof -
  have "[0..<Suc k] = 0 # map Suc [0..<k]"
    by (simp add: upt_conv_Cons map_Suc_upt del: upt_Suc)
  then show ?thesis by (simp add: comp_def del: upt_Suc)
qed

lemma retry_loop_exhaust:
  assumes rl: "\<forall>n. \<exists>d. model n cp = ResourceExhausted d"
  shows "nat (max_retries - retries) = k \<Longrightarrow>
     (\<forall>j<k. \<not> sleep_raises
        (backoff_wait (retries + 1 + int j) (retry_delay_of (model (calls w + j) cp)))) \<Longrightarrow>
     retry_loop sleep_raises model cp et ek max_retries retries w =
       (Inr (exhausted_message et ek),
        w\<lparr>calls := calls w + k,
          sleeps := sleeps w @
            map (\<lambda>j. backoff_wait (retries + 1 + int j) (retry_delay_of (model (calls w + j) cp)))
              [0..<k]\<rparr>)"
proof (induction k arbitrary: retries w)
  case 0
  then have "\<not> retries < max_retries" by simp
  then show ?case
    by (subst retry_loop.simps) (simp add: exhausted_message_def)
next
  case (Suc k)
  then have lt: "retries < max_retries" and k: "nat (max_retries - (retries + 1)) = k" by simp_all
  from rl obtain d where d: "model (calls w) cp = ResourceExhausted d" by blast
  let ?w = "w\<lparr>calls := Suc (calls w), sleeps := sleeps w @ [backoff_wait (retries + 1) d]\<rparr>"
  from Suc.prems(2) have "\<not> sleep_raises
        (backoff_wait (retries + 1 + int 0) (retry_delay_of (model (calls w + 0) cp)))"
    by blast
  then have ok: "\<not> sleep_raises (backoff_wait (retries + 1) d)" by (simp add: d)
  have rest: "\<forall>j<k. \<not> sleep_raises
        (backoff_wait (retries + 1 + 1 + int j) (retry_delay_of (model (calls ?w + j) cp)))"
  proof (intro allI impI)
    fix j assume "j < k"
    then have "Suc j < Suc k" by simp
    with Suc.prems(2) have "\<not> sleep_raises
        (backoff_wait (retries + 1 + int (Suc j)) (retry_delay_of (model (calls w + Suc j) cp)))"
      by blast
    then show "\<not> sleep_raises
        (backoff_wait (retries + 1 + 1 + int j) (retry_delay_of (model (calls ?w + j) cp)))"
      by (simp add: ac_simps)
  qed
  have step: "retry_loop sleep_raises model cp et ek max_retries retries w
                = retry_loop sleep_raises model cp et ek max_retries (retries + 1) ?w"
    by (subst retry_loop.simps) (simp add: lt d ok Let_def)
  show ?case
    unfolding step Suc.IH[OF k rest]
    by (simp add: map_upt_Suc_shift d ac_simps del: upt_Suc)
qed

lemma backoff_wait_max:
  "backoff_wait (1 + int j) (retry_delay_of (model (calls w + j) cp))
     = max (2 ^ Suc j) (hint model cp w j)"
  by (simp add: backoff_wait_def hint_def nat_add_distrib split: option.split)

lemma sorted_map_upt:
  fixes g :: "nat \<Rightarrow> int"
  assumes "\<forall>j. Suc j < n \<longrightarrow> g j \<le> g (Suc j)"
  shows "sorted (map g [0..<n])"
  using assms by (simp add: sorted_iff_nth_Suc)

text \<open>
  Claim C5, as amended. With \<open>max_retries = 5\<close>, a model that raises the rate-limit error
  at every call, each with no delay or a delay in seconds, and a \<open>time.sleep\<close> that accepts
  the delays asked of it: exactly 5 calls are made and the result is the message of
  exhausted retries, which differs from the message of any other failure; nothing is
  raised. The sleep before the \<open>j\<close>-th retry is \<open>max (2 ^ j) hint\<close>, the server's hint
  counting only when it is larger. The four sleeps between the five attempts are
  non-decreasing when the hints are (none counting as 0), and they are 2, 4, 8, 16 when
  there is no hint; a hint that drops makes the sleeps drop.
\<close>

theorem retry_exhaustion:
  assumes "\<forall>n. \<exists>d. model n cp = ResourceExhausted d"
    and "\<forall>j<5. \<not> sleep_raises
           (backoff_wait (1 + int j) (retry_delay_of (model (calls w + j) cp)))"
  shows "\<exists>w' rest. make_llm_call_with_retry_multimodal sleep_raises model cp et ek 5 w
                 = (Inr (exhausted_message et ek), w')
     \<and> exhausted_message et ek \<noteq> ''Error summarizing '' @ et @ '' '' @ ek @ ''.''
     \<and> calls w' = calls w + 5
     \<and> sleeps w' = sleeps w @
          map (\<lambda>j. backoff_wait (1 + int j) (retry_delay_of (model (calls w + j) cp))) [0..<4]
          @ rest
     \<and> (\<forall>j. backoff_wait (1 + int j) (retry_delay_of (model (calls w + j) cp))
              = max (2 ^ Suc j) (hint model cp w j))
     \<and> ((\<forall>j<3. hint model cp w j \<le> hint model cp w (Suc j)) \<longrightarrow>
          sorted (map (\<lambda>j. backoff_wait (1 + int j) (retry_delay_of (model (calls w + j) cp)))
                    [0..<4]))
     \<and> ((\<forall>n. model n cp = ResourceExhausted None) \<longrightarrow>
          map (\<lambda>j. backoff_wait (1 + int j) (retry_delay_of (model (calls w + j) cp))) [0..<4]
            = [2, 4, 8, 16])"
proof -
  let ?g = "\<lambda>j. backoff_wait (1 + int j) (retry_delay_of (model (calls w + j) cp))"
  let ?w = "w\<lparr>calls := calls w + 5, sleeps := sleeps w @ map ?g [0..<5]\<rparr>"
  have acc: "\<forall>j<5. \<not> sleep_raises
        (backoff_wait (0 + 1 + int j) (retry_delay_of (model (calls w + j) cp)))"
    using assms(2) by simp
  have run: "make_llm_call_with_retry_multimodal sleep_raises model cp et ek 5 w
               = (Inr (exhausted_message et ek), ?w)"
    unfolding make_llm_call_with_retry_multimodal_def
    using retry_loop_exhaust[where model = model and cp = cp and max_retries = 5
        and retries = 0 and k = 5 and et = et and ek = ek and w = w
        and sleep_raises = sleep_raises, OF assms(1) _ acc]
    by simp
  have ne: "exhausted_message et ek \<noteq> ''Error summarizing '' @ et @ '' '' @ ek @ ''.''"
    by (simp add: exhausted_message_def)
  have mx: "\<forall>j. ?g j = max (2 ^ Suc j) (hint model cp w j)"
    by (simp only: backoff_wait_max) simp
  have srt: "(\<forall>j<3. hint model cp w j \<le> hint model cp w (Suc j)) \<longrightarrow> sorted (map ?g [0..<4])"
  proof
    assume h: "\<forall>j<3. hint model cp w j \<le> hint model cp w (Suc j)"
    have "\<forall>j. Suc j < 4 \<longrightarrow> ?g j \<le> ?g (Suc j)"
    proof (intro allI impI)
      fix j :: nat
      assume "Suc j < 4"
      then have "hint model cp w j \<le> hint model cp w (Suc j)" using h by simp
      moreover have "(2::int) ^ Suc j \<le> 2 ^ Suc (Suc j)" by simp
      ultimately show "?g j \<le> ?g (Suc j)"
        unfolding backoff_wait_max by (rule_tac max.mono) simp_all
    qed
    then show "sorted (map ?g [0..<4])" by (rule sorted_map_upt)
  qed
  have four: "[0..<4] = [0, 1, 2, 3]" by (simp add: upt_rec)
  have five: "[0..<5] = [0..<4] @ [4]" by (simp add: upt_rec)
  have nohint: "(\<forall>n. model n cp = ResourceExhausted None) \<longrightarrow> map ?g [0..<4] = [2, 4, 8, 16]"
    by (simp add: four backoff_wait_def)
  have c: "calls ?w = calls w + 5" by simp
  have s: "sleeps ?w = sleeps w @ map ?g [0..<4] @ [?g 4]"
    by (simp add: five del: upt_Suc)
  show ?thesis
    by (rule exI[of _ ?w], rule exI[of _ "[?g 4]"])
       (rule conjI[OF run conjI[OF ne conjI[OF c conjI[OF s conjI[OF mx conjI[OF srt nohint]]]]]])
qed

theorem retry_exhaustion_witness:
  "fst (make_llm_call_with_retry_multimodal no_overflow (always (ResourceExhausted None))
       ''prompt'' ''image'' ''page 1'' 5 \<lparr>calls = 0, sleeps = []\<rparr>)
     = Inr (exhausted_message ''image'' ''page 1'')
   \<and> calls (snd (make_llm_call_with_retry_multimodal no_overflow
       (always (ResourceExhausted None)) ''prompt'' ''image'' ''page 1'' 5
       \<lparr>calls = 0, sleeps = []\<rparr>)) = 5
   \<and> take 4 (sleeps (snd (make_llm_call_with_retry_multimodal no_overflow
       (always (ResourceExhausted None)) ''prompt'' ''image'' ''page 1'' 5
       \<lparr>calls = 0, sleeps = []\<rparr>))) = [2, 4, 8, 16]"
proof -
  have a: "\<forall>n. \<exists>d. always (ResourceExhausted None) n ''prompt'' = ResourceExhausted d"
    by (simp add: always_def)
  have b: "\<forall>n. always (ResourceExhausted None) n ''prompt'' = ResourceExhausted None"
    by (simp add: always_def)
  have c: "\<forall>j<5. \<not> no_overflow (backoff_wait (1 + int j)
             (retry_delay_of (always (ResourceExhausted None)
                (calls \<lparr>calls = 0, sleeps = []\<rparr> + j) ''prompt'')))"
    by (simp add: no_overflow_def)
  let ?w0 = "\<lparr>calls = 0, sleeps = []\<rparr>"
  let ?g = "\<lambda>j. backoff_wait (1 + int j)
              (retry_delay_of (always (ResourceExhausted None) (calls ?w0 + j) ''prompt''))"
  from retry_exhaustion[where model = "always (ResourceExhausted None)" and cp = "''prompt''"
      and sleep_raises = no_overflow
      and et = "''image''" and ek = "''page 1''" and w = ?w0, OF a c]
  obtain w' rest where
    run: "make_llm_call_with_retry_multimodal no_overflow (always (ResourceExhausted None))
       ''prompt'' ''image'' ''page 1'' 5 ?w0 = (Inr (exhausted_message ''image'' ''page 1''), w')"
    and cl: "calls w' = calls ?w0 + 5"
    and sl: "sleeps w' = sleeps ?w0 @ map ?g [0..<4] @ rest"
    and nh: "(\<forall>n. always (ResourceExhausted None) n ''prompt'' = ResourceExhausted None)
               \<longrightarrow> map ?g [0..<4] = [2, 4, 8, 16]"
    by (elim exE conjE) (rule that, assumption+)
  from nh b have "map ?g [0..<4] = [2, 4, 8, 16]" by (rule mp)
  with sl have "sleeps w' = [2, 4, 8, 16] @ rest" by simp
  with run cl show ?thesis by simp
qed

theorem retry_sleeps_counterexample:
  "take 4 (sleeps (snd (make_llm_call_with_retry_multimodal no_overflow
       (first_then (ResourceExhausted (Some 100)) (ResourceExhausted None)) ''prompt''
       ''image'' ''page 1'' 5 \<lparr>calls = 0, sleeps = []\<rparr>))) = [100, 4, 8, 16]
   \<and> \<not> sorted [100, 4, 8, 16 :: int]
   \<and> make_llm_call_with_retry_multimodal sleep_overflows
       (always (ResourceExhausted (Some (10 ^ 10)))) ''prompt''
       ''image'' ''page 1'' 5 \<lparr>calls = 0, sleeps = []\<rparr>
     = (Inl OverflowError, \<lparr>calls = 1, sleeps = []\<rparr>)
   \<and> make_llm_call_with_retry_multimodal no_overflow
       (always (ResourceExhaustedBadDelay AttributeError)) ''prompt''
       ''image'' ''page 1'' 5 \<lparr>calls = 0, sleeps = []\<rparr>
     = (Inl AttributeError, \<lparr>calls = 1, sleeps = []\<rparr>)"
proof -
  let ?m = "first_then (ResourceExhausted (Some 100)) (ResourceExhausted None) :: string llm"
  have a: "\<forall>n. \<exists>d. ?m n ''prompt'' = ResourceExhausted d"
    by (simp add: first_then_def)
  have five: "[0..<5] = [0, 1, 2, 3, 4]" by (simp add: upt_rec)
  have c: "\<forall>j<5. \<not> no_overflow (backoff_wait (0 + 1 + int j)
             (retry_delay_of (?m (calls \<lparr>calls = 0, sleeps = []\<rparr> + j) ''prompt'')))"
    by (simp add: no_overflow_def)
  have p1: "take 4 (sleeps (snd (make_llm_call_with_retry_multimodal no_overflow ?m ''prompt''
       ''image'' ''page 1'' 5 \<lparr>calls = 0, sleeps = []\<rparr>))) = [100, 4, 8, 16]"
    unfolding make_llm_call_with_retry_multimodal_def
    using retry_loop_exhaust[where model = ?m and cp = "''prompt''" and max_retries = 5
        and retries = 0 and k = 5 and et = "''image''" and ek = "''page 1''"
        and sleep_raises = no_overflow
        and w = "\<lparr>calls = 0, sleeps = []\<rparr>", OF a _ c]
    by (simp add: five first_then_def backoff_wait_def)
  have p2: "\<not> sorted [100, 4, 8, 16 :: int]" by simp
  have p3: "make_llm_call_with_retry_multimodal sleep_overflows
       (always (ResourceExhausted (Some (10 ^ 10)))) ''prompt''
       ''image'' ''page 1'' 5 \<lparr>calls = 0, sleeps = []\<rparr>
     = (Inl OverflowError, \<lparr>calls = 1, sleeps = []\<rparr>)"
    unfolding make_llm_call_with_retry_multimodal_def
    by (subst retry_loop.simps) (simp add: always_def backoff_wait_def sleep_overflows_def)
  have p4: "make_llm_call_with_retry_multimodal no_overflow
       (always (ResourceExhaustedBadDelay AttributeError)) ''prompt''
       ''image'' ''page 1'' 5 \<lparr>calls = 0, sleeps = []\<rparr>
     = (Inl AttributeError, \<lparr>calls = 1, sleeps = []\<rparr>)"
    unfolding make_llm_call_with_retry_multimodal_def
    by (subst retry_loop.simps) (simp add: always_def)
  show ?thesis by (rule conjI[OF p1 conjI[OF p2 conjI[OF p3 p4]]])
qed


section \<open>Batches of summaries\<close>

lemma slot_of_simps:
  "slot_of failure item (Returned s) = s"
  "slot_of failure item (ResourceExhausted d) = failure item"
  "slot_of failure item (ResourceExhaustedBadDelay e) = failure item"
  "slot_of failure item OtherException = failure item"
  by (simp_all add: slot_of_def)

lemma table_slot_simps:
  "table_slot table (Returned s) = Inr s"
  "table_slot table (ResourceExhausted d) = table_failure table"
  "table_slot table (ResourceExhaustedBadDelay e) = table_failure table"
  "table_slot table OtherException = table_failure table"
  by (simp_all add: table_slot_def)

lemma summary_loop_run:
  "summary_loop model failure items (summaries, n, w) =
     (summaries @ map (\<lambda>j. slot_of failure (items ! j) (model (calls w + j) [items ! j]))
                    [0..<length items],
      n + length (filter failed (map (\<lambda>j. model (calls w + j) [items ! j]) [0..<length items])),
      w\<lparr>calls := calls w + length items\<rparr>)"
proof (induction items arbitrary: summaries n w)
  case Nil
  show ?case by simp
next
  case (Cons item items)
  show ?case
    by (cases "model (calls w) [item]")
       (simp_all add: Cons.IH map_upt_Suc_shift slot_of_simps del: upt_Suc)
qed

lemma try_map_map: "try_map f (map g xs) = try_map (\<lambda>x. f (g x)) xs"
  by (induction xs) (simp_all split: sum.splits)

lemma try_map_upt_Suc:
  "try_map f [0..<Suc k] =
     (case f 0 of
        Inl e \<Rightarrow> Inl e
      | Inr y \<Rightarrow> (case try_map (\<lambda>j. f (Suc j)) [0..<k] of
                    Inl e \<Rightarrow> Inl e
                  | Inr ys \<Rightarrow> Inr (y # ys)))"
proof -
  have "[0..<Suc k] = 0 # map Suc [0..<k]"
    by (simp add: upt_conv_Cons map_Suc_upt del: upt_Suc)
  then show ?thesis by (simp add: try_map_map del: upt_Suc split: sum.splits)
qed

lemma try_map_upt_D:
  assumes "try_map f [0..<n] = Inr ys"
  shows "length ys = n" and "\<forall>i<n. f i = Inr (ys ! i)"
proof -
  from assms have m: "map f [0..<n] = map Inr ys" by (rule try_map_Inr_D)
  from arg_cong[OF m, of length] show l: "length ys = n" by simp
  show "\<forall>i<n. f i = Inr (ys ! i)"
  proof (intro allI impI)
    fix i assume i: "i < n"
    with arg_cong[OF m, of "\<lambda>zs. zs ! i"] l show "f i = Inr (ys ! i)" by simp
  qed
qed

lemma try_map_returns: "\<forall>x\<in>set xs. \<exists>y. f x = Inr y \<Longrightarrow> \<exists>ys. try_map f xs = Inr ys"
proof (induction xs)
  case Nil
  show ?case by simp
next
  case (Cons x xs)
  then obtain y ys where "f x = Inr y" "try_map f xs = Inr ys" by auto
  then show ?case by simp
qed

lemma try_map_raises:
  "try_map f xs = Inl e \<Longrightarrow> \<exists>x\<in>set xs. f x = Inl e"
proof (induction xs)
  case Nil
  then show ?case by simp
next
  case (Cons x xs)
  then show ?case by (cases "f x"; cases "try_map f xs") simp_all
qed

lemma try_map_raises_at:
  "x \<in> set xs \<Longrightarrow> f x = Inl e \<Longrightarrow> \<exists>e'. try_map f xs = Inl e'"
proof (induction xs)
  case Nil
  then show ?case by simp
next
  case (Cons y ys)
  then show ?case by (cases "f y"; cases "try_map f ys") auto
qed

lemma table_loop_run:
  "table_loop model tables (summaries, n, w) =
     (case try_map (\<lambda>j. table_slot (tables ! j) (model (calls w + j) [tables ! j]))
             [0..<length tables] of
        Inl e \<Rightarrow> Inl e
      | Inr new \<Rightarrow>
          Inr (summaries @ new,
               n + length (filter failed
                     (map (\<lambda>j. model (calls w + j) [tables ! j]) [0..<length tables])),
               w\<lparr>calls := calls w + length tables\<rparr>))"
proof (induction tables arbitrary: summaries n w)
  case Nil
  show ?case by simp
next
  case (Cons table tables)
  show ?case
    by (cases "model (calls w) [table]"; cases table)
       (simp_all add: Cons.IH try_map_upt_Suc map_upt_Suc_shift table_slot_simps
          del: upt_Suc split: sum.splits)
qed

lemma generate_table_text_summaries_run:
  "generate_table_text_summaries mt mtb texts tables w =
     (case try_map (\<lambda>j. table_slot (tables ! j) (mtb (calls w + length texts + j) [tables ! j]))
             [0..<length tables] of
        Inl e \<Rightarrow> Inl e
      | Inr table_summaries \<Rightarrow>
          Inr ((map (\<lambda>j. slot_of text_sentinel (texts ! j) (mt (calls w + j) [texts ! j]))
                  [0..<length texts],
                table_summaries),
               (length (filter failed
                  (map (\<lambda>j. mt (calls w + j) [texts ! j]) [0..<length texts])),
                length (filter failed
                  (map (\<lambda>j. mtb (calls w + length texts + j) [tables ! j])
                     [0..<length tables]))),
               w\<lparr>calls := calls w + length texts + length tables\<rparr>))"
  by (simp add: generate_table_text_summaries_def summary_loop_run table_loop_run
      split: sum.splits)

lemma generate_table_text_summaries_Inr:
  assumes "generate_table_text_summaries mt mtb texts tables w = Inr r"
  shows "fst (fst r) = map (\<lambda>j. slot_of text_sentinel (texts ! j) (mt (calls w + j) [texts ! j]))
                         [0..<length texts]"
    and "length (snd (fst r)) = length tables"
    and "\<forall>i<length tables. table_slot (tables ! i) (mtb (calls w + length texts + i) [tables ! i])
           = Inr (snd (fst r) ! i)"
    and "fst (fst (snd r))
           = length (filter failed (map (\<lambda>j. mt (calls w + j) [texts ! j]) [0..<length texts]))"
    and "snd (fst (snd r))
           = length (filter failed
               (map (\<lambda>j. mtb (calls w + length texts + j) [tables ! j]) [0..<length tables]))"
proof -
  let ?f = "\<lambda>j. table_slot (tables ! j) (mtb (calls w + length texts + j) [tables ! j])"
  from assms obtain ts where ts: "try_map ?f [0..<length tables] = Inr ts"
    and r: "r = ((map (\<lambda>j. slot_of text_sentinel (texts ! j) (mt (calls w + j) [texts ! j]))
                  [0..<length texts], ts),
               (length (filter failed
                  (map (\<lambda>j. mt (calls w + j) [texts ! j]) [0..<length texts])),
                length (filter failed
                  (map (\<lambda>j. mtb (calls w + length texts + j) [tables ! j])
                     [0..<length tables]))),
               w\<lparr>calls := calls w + length texts + length tables\<rparr>)"
    unfolding generate_table_text_summaries_run by (auto split: sum.splits)
  show "fst (fst r) = map (\<lambda>j. slot_of text_sentinel (texts ! j) (mt (calls w + j) [texts ! j]))
                         [0..<length texts]"
    by (simp add: r)
  show "length (snd (fst r)) = length tables"
    using try_map_upt_D(1)[OF ts] by (simp add: r)
  show "\<forall>i<length tables. ?f i = Inr (snd (fst r) ! i)"
    using try_map_upt_D(2)[OF ts] by (simp add: r)
  show "fst (fst (snd r))
           = length (filter failed (map (\<lambda>j. mt (calls w + j) [texts ! j]) [0..<length texts]))"
    by (simp add: r)
  show "snd (fst (snd r))
           = length (filter failed
               (map (\<lambda>j. mtb (calls w + length texts + j) [tables ! j]) [0..<length tables]))"
    by (simp add: r)
qed

lemma table_slot_Inr:
  "table_slot table out = Inr s \<Longrightarrow>
     out = Returned s \<or> (failed out \<and> (\<exists>t. table = Some t \<and> s = table_sentinel t))"
  by (cases out; cases table) (simp_all add: table_slot_simps)

lemma table_slot_Inl:
  "table_slot table out = Inl e \<longleftrightarrow> failed out \<and> table = None \<and> e = TypeError"
  by (cases out; cases table) (auto simp add: table_slot_simps)

lemma generate_table_text_summaries_returns:
  assumes "\<forall>i<length tables. failed (mtb (calls w + length texts + i) [tables ! i])
             \<longrightarrow> tables ! i \<noteq> None"
  shows "\<exists>r. generate_table_text_summaries mt mtb texts tables w = Inr r"
proof -
  let ?f = "\<lambda>j. table_slot (tables ! j) (mtb (calls w + length texts + j) [tables ! j])"
  have "\<forall>j\<in>set [0..<length tables]. \<exists>y. ?f j = Inr y"
  proof
    fix j assume "j \<in> set [0..<length tables]"
    then have j: "j < length tables" by simp
    show "\<exists>y. ?f j = Inr y"
    proof (cases "?f j")
      case (Inl e)
      then have "failed (mtb (calls w + length texts + j) [tables ! j]) \<and> tables ! j = None"
        unfolding table_slot_Inl by blast
      with assms j have False by blast
      then show ?thesis by (rule FalseE)
    next
      case (Inr y)
      then show ?thesis by simp
    qed
  qed
  then obtain ys where "try_map ?f [0..<length tables] = Inr ys"
    using try_map_returns[of "[0..<length tables]" ?f] by blast
  then show ?thesis by (simp add: generate_table_text_summaries_run)
qed

lemma generate_table_text_summaries_aborts:
  assumes "i < length tables" and "tables ! i = None"
    and "failed (mtb (calls w + length texts + i) [tables ! i])"
  shows "generate_table_text_summaries mt mtb texts tables w = Inl TypeError"
proof -
  let ?f = "\<lambda>j. table_slot (tables ! j) (mtb (calls w + length texts + j) [tables ! j])"
  have "?f i = Inl TypeError" using assms(2,3) by (simp add: table_slot_Inl)
  moreover have "i \<in> set [0..<length tables]" using assms(1) by simp
  ultimately obtain e where e: "try_map ?f [0..<length tables] = Inl e"
    using try_map_raises_at[of i "[0..<length tables]" ?f TypeError] by blast
  from try_map_raises[OF e] have "e = TypeError" by (auto simp: table_slot_Inl)
  with e show ?thesis by (simp add: generate_table_text_summaries_run)
qed

lemma retry_loop_result:
  "(\<exists>e. fst (retry_loop sr model cp et ek max_retries retries w) = Inl e)
   \<or> fst (retry_loop sr model cp et ek max_retries retries w) = Inr (error_message et ek)
   \<or> fst (retry_loop sr model cp et ek max_retries retries w) = Inr (exhausted_message et ek)
   \<or> (\<exists>n s. model n cp = Returned s
         \<and> fst (retry_loop sr model cp et ek max_retries retries w) = Inr s)"
proof (induction sr model cp et ek max_retries retries w rule: retry_loop.induct)
  case (1 sr model cp et ek max_retries retries w)
  show ?case
  proof (cases "retries < max_retries")
    case False
    then have "fst (retry_loop sr model cp et ek max_retries retries w)
                 = Inr (exhausted_message et ek)"
      by (subst retry_loop.simps) (simp add: exhausted_message_def)
    then show ?thesis by simp
  next
    case True
    show ?thesis
    proof (cases "model (calls w) cp")
      case (Returned s)
      then have "fst (retry_loop sr model cp et ek max_retries retries w) = Inr s"
        by (subst retry_loop.simps) (simp add: True)
      with Returned show ?thesis by blast
    next
      case (ResourceExhausted d)
      show ?thesis
      proof (cases "sr (backoff_wait (retries + 1) d)")
        case True
        have "fst (retry_loop sr model cp et ek max_retries retries w) = Inl OverflowError"
          by (subst retry_loop.simps)
             (simp add: \<open>retries < max_retries\<close> ResourceExhausted True Let_def)
        then show ?thesis by simp
      next
        case False
        have "retry_loop sr model cp et ek max_retries retries w
                = retry_loop sr model cp et ek max_retries (retries + 1)
                    (w\<lparr>calls := Suc (calls w),
                       sleeps := sleeps w @ [backoff_wait (retries + 1) d]\<rparr>)"
          by (subst retry_loop.simps)
             (simp add: \<open>retries < max_retries\<close> ResourceExhausted False Let_def)
        then show ?thesis
          using "1.IH"[OF \<open>retries < max_retries\<close> ResourceExhausted refl refl False] by simp
      qed
    next
      case (ResourceExhaustedBadDelay e)
      then have "fst (retry_loop sr model cp et ek max_retries retries w) = Inl e"
        by (subst retry_loop.simps) (simp add: True)
      then show ?thesis by simp
    next
      case OtherException
      then have "fst (retry_loop sr model cp et ek max_retries retries w)
                   = Inr (error_message et ek)"
        by (subst retry_loop.simps) (simp add: True error_message_def)
      then show ?thesis by simp
    qed
  qed
qed

lemma error_message_counted: "sublist ''Error summarizing image'' (error_message ''image'' k)"
proof -
  have "error_message ''image'' k = ''Error summarizing image'' @ ('' '' @ k @ ''.'')"
    by (simp add: error_message_def)
  then show ?thesis by (simp only: sublist_append_rightI)
qed

lemma exhausted_message_counted:
  "sublist ''Failed to summarize image'' (exhausted_message ''image'' k)"
proof -
  have "exhausted_message ''image'' k
          = ''Failed to summarize image'' @ ('' '' @ k @ '' after multiple retries.'')"
    by (simp add: exhausted_message_def)
  then show ?thesis by (simp only: sublist_append_rightI)
qed

lemma processing_message_failure: "image_failure_string (processing_message k)"
  by (simp add: image_failure_string_def processing_message_def)

lemma image_call_result:
  "(\<exists>e. fst (image_call sr model py_str item decoded w) = Inl e)
   \<or> fst (image_call sr model py_str item decoded w)
       = Inr (error_message ''image'' (image_element_key py_str (fst item) (snd item)))
   \<or> fst (image_call sr model py_str item decoded w)
       = Inr (exhausted_message ''image'' (image_element_key py_str (fst item) (snd item)))
   \<or> (\<exists>n s. model n (image_prompt_of py_str item decoded) = Returned s
         \<and> fst (image_call sr model py_str item decoded w) = Inr s)"
  unfolding image_call_def make_llm_call_with_retry_multimodal_def
  by (rule retry_loop_result)

lemma image_result_slot:
  "image_slot model py_str b64decode item (image_result sr model py_str b64decode item w)"
proof (cases "b64decode (base64_data (snd item))")
  case None
  then show ?thesis by (simp add: image_result_def image_slot_def)
next
  case (Some decoded)
  from image_call_result[of sr model py_str item decoded w]
  consider e where "fst (image_call sr model py_str item decoded w) = Inl e"
    | "fst (image_call sr model py_str item decoded w)
         = Inr (error_message ''image'' (image_element_key py_str (fst item) (snd item)))"
    | "fst (image_call sr model py_str item decoded w)
         = Inr (exhausted_message ''image'' (image_element_key py_str (fst item) (snd item)))"
    | n s where "model n (image_prompt_of py_str item decoded) = Returned s"
        "fst (image_call sr model py_str item decoded w) = Inr s"
    by blast
  then show ?thesis
  proof cases
    case 1
    then show ?thesis by (simp add: image_result_def image_slot_def Some)
  next
    case 2
    then show ?thesis by (simp add: image_result_def image_slot_def Some)
  next
    case 3
    then show ?thesis by (simp add: image_result_def image_slot_def Some)
  next
    case 4
    then have "image_result sr model py_str b64decode item w = s"
      by (simp add: image_result_def Some)
    moreover have "\<exists>n decoded. b64decode (base64_data (snd item)) = Some decoded
            \<and> model n (image_prompt_of py_str item decoded) = Returned s"
      using Some 4(1) by blast
    ultimately show ?thesis by (simp add: image_slot_def)
  qed
qed

lemma image_result_first_call:
  assumes "b64decode (base64_data (snd item)) = Some decoded"
  shows "model (calls w) (image_prompt_of py_str item decoded) = Returned s
           \<Longrightarrow> image_result sr model py_str b64decode item w = s"
    and "model (calls w) (image_prompt_of py_str item decoded) = OtherException
           \<Longrightarrow> image_result sr model py_str b64decode item w
                 = error_message ''image'' (image_element_key py_str (fst item) (snd item))"
    and "model (calls w) (image_prompt_of py_str item decoded) = ResourceExhaustedBadDelay e
           \<Longrightarrow> image_result sr model py_str b64decode item w
                 = processing_message (py_str (fst item))"
  using assms
  by (simp_all add: image_result_def image_call_def make_llm_call_with_retry_multimodal_def
      retry_loop.simps[of sr model "image_prompt_of py_str item decoded" _ _ 5 0 w]
      error_message_def)

lemma image_counted_iff:
  assumes "\<forall>k p s. model k p = Returned s \<longrightarrow> \<not> image_failure_string s"
  shows "(image_raised sr model py_str b64decode item w
          \<or> sublist ''Error summarizing image'' (image_result sr model py_str b64decode item w)
          \<or> sublist ''Failed to summarize image'' (image_result sr model py_str b64decode item w))
         = image_failure_string (image_result sr model py_str b64decode item w)"
proof (cases "b64decode (base64_data (snd item))")
  case None
  have "image_raised sr model py_str b64decode item w" by (simp add: image_raised_def None)
  moreover have "image_failure_string (image_result sr model py_str b64decode item w)"
    by (simp add: image_result_def None processing_message_failure)
  ultimately show ?thesis by simp
next
  case (Some decoded)
  from image_call_result[of sr model py_str item decoded w]
  consider e where "fst (image_call sr model py_str item decoded w) = Inl e"
    | "fst (image_call sr model py_str item decoded w)
         = Inr (error_message ''image'' (image_element_key py_str (fst item) (snd item)))"
    | "fst (image_call sr model py_str item decoded w)
         = Inr (exhausted_message ''image'' (image_element_key py_str (fst item) (snd item)))"
    | n s where "model n (image_prompt_of py_str item decoded) = Returned s"
        "fst (image_call sr model py_str item decoded w) = Inr s"
    by blast
  then show ?thesis
  proof cases
    case 1
    then have "image_raised sr model py_str b64decode item w"
      by (simp add: image_raised_def Some)
    moreover have "image_failure_string (image_result sr model py_str b64decode item w)"
      using 1 by (simp add: image_result_def Some processing_message_failure)
    ultimately show ?thesis by simp
  next
    case 2
    then have "image_result sr model py_str b64decode item w
                 = error_message ''image'' (image_element_key py_str (fst item) (snd item))"
      by (simp add: image_result_def Some)
    then show ?thesis using error_message_counted by (simp add: image_failure_string_def)
  next
    case 3
    then have "image_result sr model py_str b64decode item w
                 = exhausted_message ''image'' (image_element_key py_str (fst item) (snd item))"
      by (simp add: image_result_def Some)
    then show ?thesis using exhausted_message_counted by (simp add: image_failure_string_def)
  next
    case 4
    then have r: "image_result sr model py_str b64decode item w = s"
      by (simp add: image_result_def Some)
    have nr: "\<not> image_raised sr model py_str b64decode item w"
      using 4(2) by (simp add: image_raised_def Some)
    from assms 4(1) have "\<not> image_failure_string s" by blast
    then show ?thesis using nr by (simp add: r image_failure_string_def)
  qed
qed

lemma image_loop_Cons:
  "image_loop sr model py_str b64decode (item # items) (l, n, w) =
     image_loop sr model py_str b64decode items
       (l @ [image_result sr model py_str b64decode item w],
        n + (if image_raised sr model py_str b64decode item w
                \<or> sublist ''Error summarizing image''
                     (image_result sr model py_str b64decode item w)
                \<or> sublist ''Failed to summarize image''
                     (image_result sr model py_str b64decode item w)
             then 1 else 0),
        image_world sr model py_str b64decode item w)"
proof -
  obtain image_key info where item: "item = (image_key, info)" by (cases item)
  show ?thesis
  proof (cases "b64decode (base64_data info)")
    case None
    then show ?thesis
      by (simp add: item image_result_def image_raised_def image_world_def
          processing_message_def)
  next
    case (Some decoded)
    obtain result w1 where
      call: "image_call sr model py_str item decoded w = (result, w1)"
      by (cases "image_call sr model py_str item decoded w")
    then have call': "make_llm_call_with_retry_multimodal sr model
        (prompt_parts py_str (info_page_number info) (caption_text info) decoded)
        ''image'' (''page '' @ py_str (info_page_number info) @ '' ('' @ py_str image_key @ '')'')
        5 w = (result, w1)"
      by (simp add: image_call_def image_prompt_of_def image_element_key_def item)
    show ?thesis
    proof (cases result)
      case (Inl e)
      show ?thesis
        using call call'
        by (simp add: item Some Inl image_result_def image_raised_def image_world_def
            processing_message_def Let_def)
    next
      case (Inr summary)
      show ?thesis
        using call call'
        by (simp add: item Some Inr image_result_def image_raised_def image_world_def Let_def)
    qed
  qed
qed

lemma image_loop_append:
  "image_loop sr model py_str b64decode (xs @ ys) acc
     = image_loop sr model py_str b64decode ys (image_loop sr model py_str b64decode xs acc)"
proof (induction xs arbitrary: acc)
  case Nil
  show ?case by simp
next
  case (Cons x xs)
  obtain l n w where acc: "acc = (l, n, w)" by (cases acc)
  show ?case
    unfolding acc append_Cons image_loop_Cons by (rule Cons.IH)
qed

lemma image_loop_fst:
  "\<exists>new n' w'. image_loop sr model py_str b64decode items (l, n, w) = (l @ new, n', w')
     \<and> length new = length items"
proof (induction items arbitrary: l n w)
  case Nil
  show ?case by simp
next
  case (Cons item items)
  let ?r = "image_result sr model py_str b64decode item w"
  from Cons.IH obtain new n' w' where
    "image_loop sr model py_str b64decode (item # items) (l, n, w) = ((l @ [?r]) @ new, n', w')"
    "length new = length items"
    unfolding image_loop_Cons by blast
  then have "image_loop sr model py_str b64decode (item # items) (l, n, w)
               = (l @ (?r # new), n', w')
             \<and> length (?r # new) = length (item # items)"
    by simp
  then show ?case by blast
qed

lemma image_state_length:
  "i \<le> length d \<Longrightarrow> length (fst (image_state sr model py_str b64decode d w i)) = i"
  using image_loop_fst[of sr model py_str b64decode "take i d" "[]" 0 w]
  by (auto simp: image_state_def image_to_text_summarizer_def)

lemma image_state_Suc:
  assumes "i < length d"
  shows "image_state sr model py_str b64decode d w (Suc i) =
     (fst (image_state sr model py_str b64decode d w i)
        @ [image_result sr model py_str b64decode (d ! i)
             (snd (snd (image_state sr model py_str b64decode d w i)))],
      fst (snd (image_state sr model py_str b64decode d w i))
        + (if image_raised sr model py_str b64decode (d ! i)
                (snd (snd (image_state sr model py_str b64decode d w i)))
              \<or> sublist ''Error summarizing image''
                   (image_result sr model py_str b64decode (d ! i)
                      (snd (snd (image_state sr model py_str b64decode d w i))))
              \<or> sublist ''Failed to summarize image''
                   (image_result sr model py_str b64decode (d ! i)
                      (snd (snd (image_state sr model py_str b64decode d w i))))
           then 1 else 0),
      image_world sr model py_str b64decode (d ! i)
        (snd (snd (image_state sr model py_str b64decode d w i))))"
proof -
  obtain l n wi where st: "image_state sr model py_str b64decode d w i = (l, n, wi)"
    by (cases "image_state sr model py_str b64decode d w i")
  then have st': "image_loop sr model py_str b64decode (take i d) ([], 0, w) = (l, n, wi)"
    by (simp add: image_state_def image_to_text_summarizer_def)
  have "image_state sr model py_str b64decode d w (Suc i)
          = image_loop sr model py_str b64decode [d ! i] (l, n, wi)"
    using assms
    by (simp add: image_state_def image_to_text_summarizer_def take_Suc_conv_app_nth
        image_loop_append st' del: image_loop.simps)
  then show ?thesis
    unfolding st image_loop_Cons by simp
qed

lemma image_state_full:
  "image_state sr model py_str b64decode d w (length d)
     = image_to_text_summarizer sr model py_str b64decode d w"
  by (simp add: image_state_def)

lemma image_summaries_nth:
  assumes "i < length d"
  shows "fst (image_to_text_summarizer sr model py_str b64decode d w) ! i
           = image_result sr model py_str b64decode (d ! i)
               (snd (snd (image_state sr model py_str b64decode d w i)))"
proof -
  obtain l n wi where st: "image_state sr model py_str b64decode d w i = (l, n, wi)"
    by (cases "image_state sr model py_str b64decode d w i")
  then have st': "image_loop sr model py_str b64decode (take i d) ([], 0, w) = (l, n, wi)"
    by (simp add: image_state_def image_to_text_summarizer_def)
  have len: "length l = i"
    using image_state_length[of i d sr model py_str b64decode w] assms by (simp add: st)
  let ?r = "image_result sr model py_str b64decode (d ! i) wi"
  have d: "d = take i d @ (d ! i) # drop (Suc i) d"
    using assms by (simp add: id_take_nth_drop)
  have "image_to_text_summarizer sr model py_str b64decode d w
          = image_loop sr model py_str b64decode (take i d @ (d ! i) # drop (Suc i) d)
              ([], 0, w)"
    unfolding image_to_text_summarizer_def using d by simp
  also have "\<dots> = image_loop sr model py_str b64decode ((d ! i) # drop (Suc i) d) (l, n, wi)"
    unfolding image_loop_append st' by (rule refl)
  finally obtain n0 w0 where
    run: "image_to_text_summarizer sr model py_str b64decode d w
            = image_loop sr model py_str b64decode (drop (Suc i) d) (l @ [?r], n0, w0)"
    unfolding image_loop_Cons by blast
  from image_loop_fst[of sr model py_str b64decode "drop (Suc i) d" "l @ [?r]" n0 w0]
  obtain new n' w' where
    "image_loop sr model py_str b64decode (drop (Suc i) d) (l @ [?r], n0, w0)
       = ((l @ [?r]) @ new, n', w')"
    by blast
  with run have "fst (image_to_text_summarizer sr model py_str b64decode d w) = l @ ?r # new"
    by simp
  then show ?thesis using len by (simp add: st nth_append)
qed

lemma image_summaries_length:
  "length (fst (image_to_text_summarizer sr model py_str b64decode d w)) = length d"
  using image_state_length[of "length d" d sr model py_str b64decode w]
  by (simp add: image_state_full)

lemma image_loop_count:
  assumes "\<forall>k p s. model k p = Returned s \<longrightarrow> \<not> image_failure_string s"
  shows "\<exists>new w'. image_loop sr model py_str b64decode items (l, n, w)
            = (l @ new, n + length (filter image_failure_string new), w')"
proof (induction items arbitrary: l n w)
  case Nil
  show ?case by simp
next
  case (Cons item items)
  let ?r = "image_result sr model py_str b64decode item w"
  let ?c = "if image_failure_string ?r then 1 else 0 :: nat"
  have step: "image_loop sr model py_str b64decode (item # items) (l, n, w)
      = image_loop sr model py_str b64decode items
          (l @ [?r], n + ?c, image_world sr model py_str b64decode item w)"
    unfolding image_loop_Cons image_counted_iff[OF assms] by (rule refl)
  from Cons.IH[of "l @ [?r]" "n + ?c" "image_world sr model py_str b64decode item w"]
  obtain new w' where
    "image_loop sr model py_str b64decode (item # items) (l, n, w)
       = ((l @ [?r]) @ new, n + ?c + length (filter image_failure_string new), w')"
    unfolding step by blast
  then have "image_loop sr model py_str b64decode (item # items) (l, n, w)
       = (l @ (?r # new), n + length (filter image_failure_string (?r # new)), w')"
    by simp
  then show ?case by blast
qed

lemma slot_of_nonempty:
  "out \<noteq> Returned [] \<Longrightarrow> failure item \<noteq> [] \<Longrightarrow> slot_of failure item out \<noteq> []"
  by (cases out) (simp_all add: slot_of_simps)

lemma messages_nonempty:
  "text_sentinel t \<noteq> []" "table_sentinel t \<noteq> []" "processing_message k \<noteq> []"
  "error_message et k \<noteq> []" "exhausted_message et k \<noteq> []"
  by (simp_all add: text_sentinel_def table_sentinel_def processing_message_def
      error_message_def exhausted_message_def)

lemma image_slot_nonempty:
  "image_slot model py_str b64decode item s \<Longrightarrow> \<forall>k p. model k p \<noteq> Returned [] \<Longrightarrow> s \<noteq> []"
  unfolding image_slot_def using messages_nonempty by metis

lemma call_returns:
  "model (calls w) cp = Returned s \<Longrightarrow>
     make_llm_call_with_retry_multimodal sr model cp et ek 5 w
       = (Inr s, w\<lparr>calls := Suc (calls w)\<rparr>)"
  unfolding make_llm_call_with_retry_multimodal_def
  by (subst retry_loop.simps) simp

lemma call_bad_delay:
  "model (calls w) cp = ResourceExhaustedBadDelay e \<Longrightarrow>
     make_llm_call_with_retry_multimodal sr model cp et ek 5 w
       = (Inl e, w\<lparr>calls := Suc (calls w)\<rparr>)"
  unfolding make_llm_call_with_retry_multimodal_def
  by (subst retry_loop.simps) simp

text \<open>
  Claim C8, as amended. A batch of \<open>N\<close> texts, tables or image entries yields exactly \<open>N\<close>
  results in input order, whenever the function returns; it returns unless a table is
  \<open>None\<close> and its call fails, which ends the batch with \<open>TypeError\<close>. The slot of a text
  or table holds what the model returned at that item's call, unchanged, or that item's
  failure string when the call raised. The slot of the \<open>i\<close>-th image entry is the result of
  that entry in the world left by the first \<open>i\<close> entries: the message of the handler when
  decoding or the retrying call raised, and else what the retrying call returned, which
  is the text of the first call when that call returns; it is one of the failure strings
  of that entry or a text the model returned on that entry's prompt. The failure strings
  are never empty, so a slot is empty only when the model returns an empty text; a
  failure at one item changes no other slot.
\<close>

theorem batch_cardinality:
  "(\<forall>r. generate_table_text_summaries mt mtb texts tables w = Inr r \<longrightarrow>
        length (fst (fst r)) = length texts
      \<and> length (snd (fst r)) = length tables
      \<and> (\<forall>i<length texts.
            fst (fst r) ! i = slot_of text_sentinel (texts ! i) (mt (calls w + i) [texts ! i]))
      \<and> (\<forall>i<length tables.
            Inr (snd (fst r) ! i)
              = table_slot (tables ! i) (mtb (calls w + length texts + i) [tables ! i]))
      \<and> (((\<forall>k p. mt k p \<noteq> Returned []) \<and> (\<forall>k p. mtb k p \<noteq> Returned [])) \<longrightarrow>
            (\<forall>s\<in>set (fst (fst r)) \<union> set (snd (fst r)). s \<noteq> [])))
   \<and> ((\<forall>i<length tables. failed (mtb (calls w + length texts + i) [tables ! i])
            \<longrightarrow> tables ! i \<noteq> None) \<longrightarrow>
        (\<exists>r. generate_table_text_summaries mt mtb texts tables w = Inr r))
   \<and> (\<forall>i<length tables.
         tables ! i = None \<and> failed (mtb (calls w + length texts + i) [tables ! i]) \<longrightarrow>
         generate_table_text_summaries mt mtb texts tables w = Inl TypeError)
   \<and> length (fst (image_to_text_summarizer sr model py_str b64decode d w)) = length d
   \<and> (\<forall>i<length d.
         fst (image_to_text_summarizer sr model py_str b64decode d w) ! i
           = image_result sr model py_str b64decode (d ! i)
               (snd (snd (image_state sr model py_str b64decode d w i))))
   \<and> (\<forall>item w0. image_slot model py_str b64decode item
                    (image_result sr model py_str b64decode item w0))
   \<and> (\<forall>item w0 decoded s.
         b64decode (base64_data (snd item)) = Some decoded
           \<and> model (calls w0) (image_prompt_of py_str item decoded) = Returned s
         \<longrightarrow> image_result sr model py_str b64decode item w0 = s)
   \<and> (\<forall>item w0. b64decode (base64_data (snd item)) = None
         \<longrightarrow> image_result sr model py_str b64decode item w0
               = processing_message (py_str (fst item)))
   \<and> ((\<forall>k p. model k p \<noteq> Returned []) \<longrightarrow>
         (\<forall>s\<in>set (fst (image_to_text_summarizer sr model py_str b64decode d w)). s \<noteq> []))
   \<and> (\<forall>t k et. text_sentinel t \<noteq> [] \<and> table_sentinel t \<noteq> [] \<and> processing_message k \<noteq> []
         \<and> error_message et k \<noteq> [] \<and> exhausted_message et k \<noteq> [])"
proof -
  let ?gen = "generate_table_text_summaries mt mtb texts tables w"
  let ?l = "fst (image_to_text_summarizer sr model py_str b64decode d w)"
  have p1: "\<forall>r. ?gen = Inr r \<longrightarrow>
        length (fst (fst r)) = length texts
      \<and> length (snd (fst r)) = length tables
      \<and> (\<forall>i<length texts.
            fst (fst r) ! i = slot_of text_sentinel (texts ! i) (mt (calls w + i) [texts ! i]))
      \<and> (\<forall>i<length tables.
            Inr (snd (fst r) ! i)
              = table_slot (tables ! i) (mtb (calls w + length texts + i) [tables ! i]))
      \<and> (((\<forall>k p. mt k p \<noteq> Returned []) \<and> (\<forall>k p. mtb k p \<noteq> Returned [])) \<longrightarrow>
            (\<forall>s\<in>set (fst (fst r)) \<union> set (snd (fst r)). s \<noteq> []))"
  proof (intro allI impI)
    fix r assume run: "?gen = Inr r"
    note f = generate_table_text_summaries_Inr[OF run]
    have a: "length (fst (fst r)) = length texts" by (simp add: f(1))
    have b: "length (snd (fst r)) = length tables" by (rule f(2))
    have c: "\<forall>i<length texts.
            fst (fst r) ! i = slot_of text_sentinel (texts ! i) (mt (calls w + i) [texts ! i])"
      by (simp add: f(1))
    have d: "\<forall>i<length tables.
            Inr (snd (fst r) ! i)
              = table_slot (tables ! i) (mtb (calls w + length texts + i) [tables ! i])"
      using f(3) by simp
    have e: "((\<forall>k p. mt k p \<noteq> Returned []) \<and> (\<forall>k p. mtb k p \<noteq> Returned [])) \<longrightarrow>
            (\<forall>s\<in>set (fst (fst r)) \<union> set (snd (fst r)). s \<noteq> [])"
    proof (intro impI ballI)
      fix s
      assume h: "(\<forall>k p. mt k p \<noteq> Returned []) \<and> (\<forall>k p. mtb k p \<noteq> Returned [])"
        and s: "s \<in> set (fst (fst r)) \<union> set (snd (fst r))"
      from s consider "s \<in> set (fst (fst r))" | "s \<in> set (snd (fst r))" by blast
      then show "s \<noteq> []"
      proof cases
        case 1
        then obtain j where
          "s = slot_of text_sentinel (texts ! j) (mt (calls w + j) [texts ! j])"
          unfolding f(1) by auto
        then show ?thesis using h by (simp add: slot_of_nonempty messages_nonempty)
      next
        case 2
        then obtain i where i: "i < length tables" and si: "s = snd (fst r) ! i"
          unfolding in_set_conv_nth f(2) by blast
        from f(3) i si
        have "table_slot (tables ! i) (mtb (calls w + length texts + i) [tables ! i]) = Inr s"
          by simp
        from table_slot_Inr[OF this]
        consider "mtb (calls w + length texts + i) [tables ! i] = Returned s"
          | t where "s = table_sentinel t"
          by blast
        then show ?thesis
        proof cases
          case 1
          with h show ?thesis by auto
        next
          case 2
          then show ?thesis by (simp add: messages_nonempty)
        qed
      qed
    qed
    show "length (fst (fst r)) = length texts
      \<and> length (snd (fst r)) = length tables
      \<and> (\<forall>i<length texts.
            fst (fst r) ! i = slot_of text_sentinel (texts ! i) (mt (calls w + i) [texts ! i]))
      \<and> (\<forall>i<length tables.
            Inr (snd (fst r) ! i)
              = table_slot (tables ! i) (mtb (calls w + length texts + i) [tables ! i]))
      \<and> (((\<forall>k p. mt k p \<noteq> Returned []) \<and> (\<forall>k p. mtb k p \<noteq> Returned [])) \<longrightarrow>
            (\<forall>s\<in>set (fst (fst r)) \<union> set (snd (fst r)). s \<noteq> []))"
      by (rule conjI[OF a conjI[OF b conjI[OF c conjI[OF d e]]]])
  qed
  have p2: "(\<forall>i<length tables. failed (mtb (calls w + length texts + i) [tables ! i])
            \<longrightarrow> tables ! i \<noteq> None) \<longrightarrow> (\<exists>r. ?gen = Inr r)"
    by (rule impI) (rule generate_table_text_summaries_returns)
  have p3: "\<forall>i<length tables.
         tables ! i = None \<and> failed (mtb (calls w + length texts + i) [tables ! i]) \<longrightarrow>
         ?gen = Inl TypeError"
    using generate_table_text_summaries_aborts[of _ tables mtb w texts mt] by blast
  have p4: "length ?l = length d" by (rule image_summaries_length)
  have p5: "\<forall>i<length d. ?l ! i
           = image_result sr model py_str b64decode (d ! i)
               (snd (snd (image_state sr model py_str b64decode d w i)))"
    by (intro allI impI) (rule image_summaries_nth)
  have p6: "\<forall>item w0. image_slot model py_str b64decode item
                    (image_result sr model py_str b64decode item w0)"
    by (intro allI) (rule image_result_slot)
  have p7: "\<forall>item w0 decoded s.
         b64decode (base64_data (snd item)) = Some decoded
           \<and> model (calls w0) (image_prompt_of py_str item decoded) = Returned s
         \<longrightarrow> image_result sr model py_str b64decode item w0 = s"
    using image_result_first_call(1)[of b64decode _ _ model _ py_str _ sr] by blast
  have p8: "\<forall>item w0. b64decode (base64_data (snd item)) = None
         \<longrightarrow> image_result sr model py_str b64decode item w0
               = processing_message (py_str (fst item))"
    by (simp add: image_result_def)
  have p9: "(\<forall>k p. model k p \<noteq> Returned []) \<longrightarrow> (\<forall>s\<in>set ?l. s \<noteq> [])"
  proof (intro impI ballI)
    fix s
    assume h: "\<forall>k p. model k p \<noteq> Returned []" and s: "s \<in> set ?l"
    from s obtain i where i: "i < length d" and si: "s = ?l ! i"
      unfolding in_set_conv_nth p4 by blast
    from p5 i si have "s = image_result sr model py_str b64decode (d ! i)
               (snd (snd (image_state sr model py_str b64decode d w i)))"
      by simp
    then have "image_slot model py_str b64decode (d ! i) s"
      by (simp only: image_result_slot)
    then show "s \<noteq> []" using h by (rule image_slot_nonempty)
  qed
  have p10: "\<forall>t k et. text_sentinel t \<noteq> [] \<and> table_sentinel t \<noteq> [] \<and> processing_message k \<noteq> []
         \<and> error_message et k \<noteq> [] \<and> exhausted_message et k \<noteq> []"
    by (simp add: messages_nonempty)
  show ?thesis
    by (rule conjI[OF p1 conjI[OF p2 conjI[OF p3 conjI[OF p4 conjI[OF p5 conjI[OF p6
          conjI[OF p7 conjI[OF p8 conjI[OF p9 p10]]]]]]]]])
qed

theorem batch_cardinality_witness:
  "generate_table_text_summaries
       (first_then OtherException (Returned ''ok'')) (always (Returned ''ok''))
       [''a'', ''b''] [Some ''t''] \<lparr>calls = 0, sleeps = []\<rparr>
     = Inr (([text_sentinel ''a'', ''ok''], [''ok'']), (1, 0), \<lparr>calls = 3, sleeps = []\<rparr>)
   \<and> generate_table_text_summaries
       (first_then OtherException (Returned ''ok'')) (always OtherException)
       [''a'', ''b''] [None] \<lparr>calls = 0, sleeps = []\<rparr>
     = Inl TypeError
   \<and> fst (image_to_text_summarizer no_overflow (replies [Returned ''one'', Returned ''two''])
       sample_py_str sample_b64decode
       [(PyNum 1, sample_info), (PyNum 2, undecodable_info), (PyNum 3, sample_info)]
       \<lparr>calls = 0, sleeps = []\<rparr>)
     = [''one'', processing_message ''v'', ''two'']"
proof -
  let ?w0 = "\<lparr>calls = 0, sleeps = []\<rparr>"
  let ?mt = "first_then OtherException (Returned ''ok'') :: string list llm"
  let ?m = "replies [Returned ''one'', Returned ''two''] :: string image_prompt llm"
  let ?d = "[(PyNum 1, sample_info), (PyNum 2, undecodable_info), (PyNum 3, sample_info)]"
  note inst = batch_cardinality[where mt = ?mt and mtb = "always (Returned ''ok'')"
      and texts = "[''a'', ''b'']" and tables = "[Some ''t'']" and w = ?w0
      and model = ?m and sr = no_overflow and py_str = sample_py_str
      and b64decode = sample_b64decode and d = ?d]
  have ok: "\<forall>i<length [Some ''t''].
       failed (always (Returned ''ok'') (calls ?w0 + length [''a'', ''b''] + i) [[Some ''t''] ! i])
         \<longrightarrow> [Some ''t''] ! i \<noteq> None"
    by simp
  from inst[THEN conjunct2, THEN conjunct1, THEN mp, OF ok]
  obtain r where r: "generate_table_text_summaries ?mt (always (Returned ''ok''))
       [''a'', ''b''] [Some ''t''] ?w0 = Inr r"
    by blast
  have a: "generate_table_text_summaries ?mt (always (Returned ''ok''))
       [''a'', ''b''] [Some ''t''] ?w0
     = Inr (([text_sentinel ''a'', ''ok''], [''ok'']), (1, 0), \<lparr>calls = 3, sleeps = []\<rparr>)"
    using r
    by (simp add: generate_table_text_summaries_def first_then_def always_def numeral_3_eq_3)
  have b: "generate_table_text_summaries ?mt (always OtherException)
       [''a'', ''b''] [None] ?w0 = Inl TypeError"
    by (simp add: generate_table_text_summaries_def first_then_def always_def)
  have c1: "make_llm_call_with_retry_multimodal no_overflow ?m cp et ek 5 ?w0
              = (Inr ''one'', \<lparr>calls = 1, sleeps = []\<rparr>)" for cp et ek
    using call_returns[of ?m ?w0 cp "''one''" no_overflow et ek] by (simp add: replies_def)
  have c2: "make_llm_call_with_retry_multimodal no_overflow ?m cp et ek 5
              \<lparr>calls = Suc 0, sleeps = []\<rparr>
              = (Inr ''two'', \<lparr>calls = 2, sleeps = []\<rparr>)" for cp et ek
    using call_returns[of ?m "\<lparr>calls = Suc 0, sleeps = []\<rparr>" cp "''two''" no_overflow et ek]
    by (simp add: replies_def)
  have c: "fst (image_to_text_summarizer no_overflow ?m sample_py_str sample_b64decode ?d ?w0)
     = [''one'', processing_message ''v'', ''two'']"
    using inst[THEN conjunct2, THEN conjunct2, THEN conjunct2, THEN conjunct1]
    by (simp add: image_to_text_summarizer_def sample_b64decode_def sample_info_def
        undecodable_info_def c1 c2 processing_message_def sample_py_str_def)
  show ?thesis by (rule conjI[OF a conjI[OF b c]])
qed

theorem batch_empty_slot_counterexample:
  "generate_table_text_summaries (always (Returned '''')) (always (Returned ''''))
       [''some text''] [Some ''some table''] \<lparr>calls = 0, sleeps = []\<rparr>
     = Inr (([''''], ['''']), (0, 0), \<lparr>calls = 2, sleeps = []\<rparr>)
   \<and> image_to_text_summarizer no_overflow (always (Returned '''')) sample_py_str Some
       [(PyNone, sample_info)] \<lparr>calls = 0, sleeps = []\<rparr>
     = ([''''], 0, \<lparr>calls = 1, sleeps = []\<rparr>)
   \<and> generate_table_text_summaries (always (Returned ''ok'')) (always OtherException)
       [''some text''] [None, Some ''some table''] \<lparr>calls = 0, sleeps = []\<rparr>
     = Inl TypeError"
proof -
  have a: "generate_table_text_summaries (always (Returned '''')) (always (Returned ''''))
       [''some text''] [Some ''some table''] \<lparr>calls = 0, sleeps = []\<rparr>
     = Inr (([''''], ['''']), (0, 0), \<lparr>calls = 2, sleeps = []\<rparr>)"
    by (simp add: generate_table_text_summaries_def always_def)
  have call: "make_llm_call_with_retry_multimodal no_overflow
                (always (Returned '''')) cp et ek 5 \<lparr>calls = 0, sleeps = []\<rparr>
              = (Inr '''', \<lparr>calls = 1, sleeps = []\<rparr>)"
    for cp :: "string image_prompt" and et ek
    using call_returns[of "always (Returned '''')" "\<lparr>calls = 0, sleeps = []\<rparr>" cp "''''"
        no_overflow et ek]
    by (simp add: always_def)
  have b: "image_to_text_summarizer no_overflow (always (Returned '''')) sample_py_str Some
       [(PyNone, sample_info)] \<lparr>calls = 0, sleeps = []\<rparr>
     = ([''''], 0, \<lparr>calls = 1, sleeps = []\<rparr>)"
    by (simp add: image_to_text_summarizer_def call)
  have c: "generate_table_text_summaries (always (Returned ''ok'')) (always OtherException)
       [''some text''] [None, Some ''some table''] \<lparr>calls = 0, sleeps = []\<rparr>
     = Inl TypeError"
    by (simp add: generate_table_text_summaries_def always_def)
  show ?thesis by (rule conjI[OF a conjI[OF b c]])
qed

lemma text_slot_counted:
  assumes "\<forall>k p s. m k p = Returned s \<longrightarrow> \<not> prefix pre s"
    and "\<And>t. prefix pre (failure t)"
  shows "prefix pre (slot_of failure item (m k p)) = failed (m k p)"
  using assms by (cases "m k p") (simp_all add: slot_of_simps)

lemma text_sentinel_prefix: "prefix ''Error summarizing text: '' (text_sentinel t)"
  unfolding text_sentinel_def by (rule prefixI) simp

lemma table_sentinel_prefix: "prefix ''Error summarizing table: '' (table_sentinel t)"
  unfolding table_sentinel_def by (rule prefixI) simp

lemma counted_slots:
  assumes "\<forall>k p s. m k p = Returned s \<longrightarrow> \<not> prefix pre s"
    and "\<And>t. prefix pre (failure t)"
  shows "length (filter (prefix pre)
            (map (\<lambda>j. slot_of failure (items ! j) (m (c + j) [items ! j])) [0..<n]))
         = length (filter failed (map (\<lambda>j. m (c + j) [items ! j]) [0..<n]))"
proof -
  have "filter (\<lambda>j. prefix pre (slot_of failure (items ! j) (m (c + j) [items ! j]))) [0..<n]
          = filter (\<lambda>j. failed (m (c + j) [items ! j])) [0..<n]"
    by (rule filter_cong[OF refl]) (simp add: text_slot_counted[OF assms])
  then show ?thesis by (simp add: length_filter_map comp_def)
qed

lemma counted_tables:
  assumes len: "length ts = n"
    and slots: "\<forall>i<n. table_slot (tables ! i) (out i) = Inr (ts ! i)"
    and h: "\<forall>i s. out i = Returned s \<longrightarrow> \<not> prefix ''Error summarizing table: '' s"
  shows "length (filter (prefix ''Error summarizing table: '') ts)
           = length (filter failed (map out [0..<n]))"
proof -
  have ts: "map (\<lambda>i. ts ! i) [0..<n] = ts"
    unfolding len[symmetric] by (rule map_nth)
  have "filter (\<lambda>i. prefix ''Error summarizing table: '' (ts ! i)) [0..<n]
          = filter (\<lambda>i. failed (out i)) [0..<n]"
  proof (rule filter_cong[OF refl])
    fix i assume "i \<in> set [0..<n]"
    then have "table_slot (tables ! i) (out i) = Inr (ts ! i)" using slots by simp
    from table_slot_Inr[OF this]
    show "prefix ''Error summarizing table: '' (ts ! i) = failed (out i)"
      using h table_sentinel_prefix by auto
  qed
  then have "length (filter (prefix ''Error summarizing table: '') (map (\<lambda>i. ts ! i) [0..<n]))
          = length (filter failed (map out [0..<n]))"
    by (simp add: length_filter_map comp_def)
  then show ?thesis unfolding ts .
qed

text \<open>
  Claim C9, as amended. Whenever the text and table batch returns, its counters are the
  numbers of items whose call raised; it returns when every table is a string. A counter
  equals the number of output slots holding a failure string provided no text returned by
  the model looks like one: for texts and tables, starts with
  \<open>Error summarizing text: \<close> or \<open>Error summarizing table: \<close>; for images, contains
  \<open>Error summarizing image\<close> or \<open>Failed to summarize image\<close> or starts with
  \<open>Error processing image with key \<close>. The image counter starts at 0 and grows by one at
  an entry exactly when decoding or the retrying call raised or the slot's text contains
  one of the two phrases; it is computed from the slot's text, so a returned summary
  containing such a phrase is counted as a failure.
\<close>

theorem failure_counter:
  "(\<forall>r. generate_table_text_summaries mt mtb texts tables w = Inr r \<longrightarrow>
        fst (fst (snd r))
          = length (filter failed (map (\<lambda>j. mt (calls w + j) [texts ! j]) [0..<length texts]))
      \<and> snd (fst (snd r))
          = length (filter failed
              (map (\<lambda>j. mtb (calls w + length texts + j) [tables ! j]) [0..<length tables]))
      \<and> ((\<forall>k p s. mt k p = Returned s \<longrightarrow> \<not> prefix ''Error summarizing text: '' s) \<longrightarrow>
           fst (fst (snd r))
             = length (filter (prefix ''Error summarizing text: '') (fst (fst r))))
      \<and> ((\<forall>k p s. mtb k p = Returned s \<longrightarrow> \<not> prefix ''Error summarizing table: '' s) \<longrightarrow>
           snd (fst (snd r))
             = length (filter (prefix ''Error summarizing table: '') (snd (fst r)))))
   \<and> ((\<forall>t\<in>set tables. t \<noteq> None) \<longrightarrow>
        (\<exists>r. generate_table_text_summaries mt mtb texts tables w = Inr r))
   \<and> ((\<forall>k p s. model k p = Returned s \<longrightarrow> \<not> image_failure_string s) \<longrightarrow>
        fst (snd (image_to_text_summarizer sr model py_str b64decode d w))
          = length (filter image_failure_string
              (fst (image_to_text_summarizer sr model py_str b64decode d w))))
   \<and> fst (snd (image_state sr model py_str b64decode d w 0)) = 0
   \<and> (\<forall>i<length d.
        fst (snd (image_state sr model py_str b64decode d w (Suc i)))
          = fst (snd (image_state sr model py_str b64decode d w i))
            + (if image_raised sr model py_str b64decode (d ! i)
                    (snd (snd (image_state sr model py_str b64decode d w i)))
                  \<or> sublist ''Error summarizing image''
                       (fst (image_to_text_summarizer sr model py_str b64decode d w) ! i)
                  \<or> sublist ''Failed to summarize image''
                       (fst (image_to_text_summarizer sr model py_str b64decode d w) ! i)
               then 1 else 0))
   \<and> image_state sr model py_str b64decode d w (length d)
       = image_to_text_summarizer sr model py_str b64decode d w"
proof -
  let ?gen = "generate_table_text_summaries mt mtb texts tables w"
  let ?img = "image_to_text_summarizer sr model py_str b64decode d w"
  have p1: "\<forall>r. ?gen = Inr r \<longrightarrow>
        fst (fst (snd r))
          = length (filter failed (map (\<lambda>j. mt (calls w + j) [texts ! j]) [0..<length texts]))
      \<and> snd (fst (snd r))
          = length (filter failed
              (map (\<lambda>j. mtb (calls w + length texts + j) [tables ! j]) [0..<length tables]))
      \<and> ((\<forall>k p s. mt k p = Returned s \<longrightarrow> \<not> prefix ''Error summarizing text: '' s) \<longrightarrow>
           fst (fst (snd r))
             = length (filter (prefix ''Error summarizing text: '') (fst (fst r))))
      \<and> ((\<forall>k p s. mtb k p = Returned s \<longrightarrow> \<not> prefix ''Error summarizing table: '' s) \<longrightarrow>
           snd (fst (snd r))
             = length (filter (prefix ''Error summarizing table: '') (snd (fst r))))"
  proof (intro allI impI)
    fix r assume run: "?gen = Inr r"
    note f = generate_table_text_summaries_Inr[OF run]
    have c: "(\<forall>k p s. mt k p = Returned s \<longrightarrow> \<not> prefix ''Error summarizing text: '' s) \<longrightarrow>
           fst (fst (snd r))
             = length (filter (prefix ''Error summarizing text: '') (fst (fst r)))"
    proof
      assume h: "\<forall>k p s. mt k p = Returned s \<longrightarrow> \<not> prefix ''Error summarizing text: '' s"
      show "fst (fst (snd r))
             = length (filter (prefix ''Error summarizing text: '') (fst (fst r)))"
        unfolding f(1) f(4)
        using counted_slots[OF h text_sentinel_prefix, where items = texts and c = "calls w"
            and n = "length texts"]
        by simp
    qed
    have d: "(\<forall>k p s. mtb k p = Returned s \<longrightarrow> \<not> prefix ''Error summarizing table: '' s) \<longrightarrow>
           snd (fst (snd r))
             = length (filter (prefix ''Error summarizing table: '') (snd (fst r)))"
    proof
      assume h: "\<forall>k p s. mtb k p = Returned s \<longrightarrow> \<not> prefix ''Error summarizing table: '' s"
      then have h': "\<forall>i s. mtb (calls w + length texts + i) [tables ! i] = Returned s
                       \<longrightarrow> \<not> prefix ''Error summarizing table: '' s"
        by blast
      show "snd (fst (snd r))
             = length (filter (prefix ''Error summarizing table: '') (snd (fst r)))"
        unfolding f(5)
        using counted_tables[OF f(2) f(3) h'] by simp
    qed
    show "fst (fst (snd r))
          = length (filter failed (map (\<lambda>j. mt (calls w + j) [texts ! j]) [0..<length texts]))
      \<and> snd (fst (snd r))
          = length (filter failed
              (map (\<lambda>j. mtb (calls w + length texts + j) [tables ! j]) [0..<length tables]))
      \<and> ((\<forall>k p s. mt k p = Returned s \<longrightarrow> \<not> prefix ''Error summarizing text: '' s) \<longrightarrow>
           fst (fst (snd r))
             = length (filter (prefix ''Error summarizing text: '') (fst (fst r))))
      \<and> ((\<forall>k p s. mtb k p = Returned s \<longrightarrow> \<not> prefix ''Error summarizing table: '' s) \<longrightarrow>
           snd (fst (snd r))
             = length (filter (prefix ''Error summarizing table: '') (snd (fst r))))"
      by (rule conjI[OF f(4) conjI[OF f(5) conjI[OF c d]]])
  qed
  have p2: "(\<forall>t\<in>set tables. t \<noteq> None) \<longrightarrow> (\<exists>r. ?gen = Inr r)"
  proof
    assume "\<forall>t\<in>set tables. t \<noteq> None"
    then have "\<forall>i<length tables. failed (mtb (calls w + length texts + i) [tables ! i])
                 \<longrightarrow> tables ! i \<noteq> None"
      by simp
    then show "\<exists>r. ?gen = Inr r" by (rule generate_table_text_summaries_returns)
  qed
  have p3: "(\<forall>k p s. model k p = Returned s \<longrightarrow> \<not> image_failure_string s) \<longrightarrow>
        fst (snd ?img) = length (filter image_failure_string (fst ?img))"
  proof
    assume h: "\<forall>k p s. model k p = Returned s \<longrightarrow> \<not> image_failure_string s"
    from image_loop_count[OF h, of sr py_str b64decode d "[]" 0 w]
    show "fst (snd ?img) = length (filter image_failure_string (fst ?img))"
      by (auto simp: image_to_text_summarizer_def)
  qed
  have p4: "fst (snd (image_state sr model py_str b64decode d w 0)) = 0"
    by (simp add: image_state_def image_to_text_summarizer_def)
  have p5: "\<forall>i<length d.
        fst (snd (image_state sr model py_str b64decode d w (Suc i)))
          = fst (snd (image_state sr model py_str b64decode d w i))
            + (if image_raised sr model py_str b64decode (d ! i)
                    (snd (snd (image_state sr model py_str b64decode d w i)))
                  \<or> sublist ''Error summarizing image'' (fst ?img ! i)
                  \<or> sublist ''Failed to summarize image'' (fst ?img ! i)
               then 1 else 0)"
  proof (intro allI impI)
    fix i assume i: "i < length d"
    show "fst (snd (image_state sr model py_str b64decode d w (Suc i)))
          = fst (snd (image_state sr model py_str b64decode d w i))
            + (if image_raised sr model py_str b64decode (d ! i)
                    (snd (snd (image_state sr model py_str b64decode d w i)))
                  \<or> sublist ''Error summarizing image'' (fst ?img ! i)
                  \<or> sublist ''Failed to summarize image'' (fst ?img ! i)
               then 1 else 0)"
      unfolding image_summaries_nth[OF i] image_state_Suc[OF i] by simp
  qed
  have p6: "image_state sr model py_str b64decode d w (length d) = ?img"
    by (rule image_state_full)
  show ?thesis
    by (rule conjI[OF p1 conjI[OF p2 conjI[OF p3 conjI[OF p4 conjI[OF p5 p6]]]]])
qed

theorem failure_counter_witness:
  "generate_table_text_summaries
       (first_then OtherException (Returned ''ok'')) (always (Returned ''ok''))
       [''a'', ''b''] [Some ''t''] \<lparr>calls = 0, sleeps = []\<rparr>
     = Inr (([text_sentinel ''a'', ''ok''], [''ok'']), (1, 0), \<lparr>calls = 3, sleeps = []\<rparr>)
   \<and> length (filter (prefix ''Error summarizing text: '') [text_sentinel ''a'', ''ok'']) = 1
   \<and> image_to_text_summarizer no_overflow (always (ResourceExhaustedBadDelay AttributeError))
       sample_py_str Some [(PyNone, sample_info)] \<lparr>calls = 0, sleeps = []\<rparr>
     = ([processing_message ''v''], 1, \<lparr>calls = 1, sleeps = []\<rparr>)"
proof -
  let ?w0 = "\<lparr>calls = 0, sleeps = []\<rparr>"
  let ?mt = "first_then OtherException (Returned ''ok'') :: string list llm"
  let ?m = "always (ResourceExhaustedBadDelay AttributeError) :: string image_prompt llm"
  have h: "\<forall>k p s. ?mt k p = Returned s \<longrightarrow> \<not> prefix ''Error summarizing text: '' s"
    by (simp add: first_then_def)
  have t: "\<forall>t\<in>set [Some ''t'']. t \<noteq> None" by simp
  note inst = failure_counter[where mt = ?mt and mtb = "always (Returned ''ok'')"
      and texts = "[''a'', ''b'']" and tables = "[Some ''t'']" and w = ?w0
      and model = ?m and sr = no_overflow and py_str = sample_py_str and b64decode = Some
      and d = "[(PyNone, sample_info)]"]
  from inst[THEN conjunct2, THEN conjunct1, THEN mp, OF t]
  obtain r where r: "generate_table_text_summaries ?mt (always (Returned ''ok''))
       [''a'', ''b''] [Some ''t''] ?w0 = Inr r"
    by blast
  have a: "generate_table_text_summaries ?mt (always (Returned ''ok''))
       [''a'', ''b''] [Some ''t''] ?w0
     = Inr (([text_sentinel ''a'', ''ok''], [''ok'']), (1, 0), \<lparr>calls = 3, sleeps = []\<rparr>)"
    using r
    by (simp add: generate_table_text_summaries_def first_then_def always_def numeral_3_eq_3)
  from inst[THEN conjunct1, rule_format, OF a, THEN conjunct2, THEN conjunct2, THEN conjunct1,
      THEN mp, OF h]
  have b: "length (filter (prefix ''Error summarizing text: '') [text_sentinel ''a'', ''ok'']) = 1"
    by simp
  have call: "make_llm_call_with_retry_multimodal no_overflow ?m cp et ek 5 ?w0
              = (Inl AttributeError, \<lparr>calls = 1, sleeps = []\<rparr>)" for cp et ek
    using call_bad_delay[of ?m ?w0 cp AttributeError no_overflow et ek] by (simp add: always_def)
  have c: "image_to_text_summarizer no_overflow ?m sample_py_str Some
       [(PyNone, sample_info)] ?w0 = ([processing_message ''v''], 1, \<lparr>calls = 1, sleeps = []\<rparr>)"
    by (simp add: image_to_text_summarizer_def call processing_message_def sample_py_str_def)
  show ?thesis by (rule conjI[OF a conjI[OF b c]])
qed

theorem failure_counter_counterexample:
  "image_to_text_summarizer no_overflow (always (Returned ''Error summarizing image''))
       sample_py_str Some [(PyNone, sample_info)] \<lparr>calls = 0, sleeps = []\<rparr>
     = ([''Error summarizing image''], 1, \<lparr>calls = 1, sleeps = []\<rparr>)
   \<and> ''Error summarizing image'' \<noteq> processing_message (sample_py_str PyNone)
   \<and> ''Error summarizing image''
       \<noteq> error_message ''image'' (image_element_key sample_py_str PyNone sample_info)
   \<and> ''Error summarizing image''
       \<noteq> exhausted_message ''image'' (image_element_key sample_py_str PyNone sample_info)"
proof -
  have call: "make_llm_call_with_retry_multimodal no_overflow
                (always (Returned ''Error summarizing image'')) cp et ek 5
                \<lparr>calls = 0, sleeps = []\<rparr>
              = (Inr ''Error summarizing image'', \<lparr>calls = 1, sleeps = []\<rparr>)"
    for cp :: "string image_prompt" and et ek
    using call_returns[of "always (Returned ''Error summarizing image'')"
        "\<lparr>calls = 0, sleeps = []\<rparr>" cp "''Error summarizing image''" no_overflow et ek]
    by (simp add: always_def)
  have run: "image_to_text_summarizer no_overflow (always (Returned ''Error summarizing image''))
       sample_py_str Some [(PyNone, sample_info)] \<lparr>calls = 0, sleeps = []\<rparr>
     = ([''Error summarizing image''], 1, \<lparr>calls = 1, sleeps = []\<rparr>)"
    by (simp add: image_to_text_summarizer_def call)
  show ?thesis
    using run
    by (simp add: processing_message_def error_message_def exhausted_message_def)
qed

text \<open>
  Claim C1 fails on the code. With a model whose first call raises the rate-limit error
  and whose next call returns a summary, the retrying call of the image summarizer sleeps
  2 seconds, calls again and returns the summary; the text loop and the table loop call
  the model once, never sleep, and put the failure string into the slot.
\<close>

theorem text_and_table_calls_do_not_retry:
  "generate_table_text_summaries
       (first_then (ResourceExhausted None) (Returned ''summary''))
       (first_then (ResourceExhausted None) (Returned ''summary''))
       [''some text''] [] \<lparr>calls = 0, sleeps = []\<rparr>
     = Inr (([text_sentinel ''some text''], []), (1, 0), \<lparr>calls = 1, sleeps = []\<rparr>)
   \<and> generate_table_text_summaries
       (first_then (ResourceExhausted None) (Returned ''summary''))
       (first_then (ResourceExhausted None) (Returned ''summary''))
       [] [Some ''some table''] \<lparr>calls = 0, sleeps = []\<rparr>
     = Inr (([], [table_sentinel ''some table'']), (0, 1), \<lparr>calls = 1, sleeps = []\<rparr>)
   \<and> make_llm_call_with_retry_multimodal no_overflow
       (first_then (ResourceExhausted None) (Returned ''summary''))
       ''prompt'' ''image'' ''page 1'' 5 \<lparr>calls = 0, sleeps = []\<rparr>
     = (Inr ''summary'', \<lparr>calls = 2, sleeps = [2]\<rparr>)"
proof -
  have a: "generate_table_text_summaries
       (first_then (ResourceExhausted None) (Returned ''summary''))
       (first_then (ResourceExhausted None) (Returned ''summary''))
       [''some text''] [] \<lparr>calls = 0, sleeps = []\<rparr>
     = Inr (([text_sentinel ''some text''], []), (1, 0), \<lparr>calls = 1, sleeps = []\<rparr>)"
    by (simp add: generate_table_text_summaries_def first_then_def)
  have b: "generate_table_text_summaries
       (first_then (ResourceExhausted None) (Returned ''summary''))
       (first_then (ResourceExhausted None) (Returned ''summary''))
       [] [Some ''some table''] \<lparr>calls = 0, sleeps = []\<rparr>
     = Inr (([], [table_sentinel ''some table'']), (0, 1), \<lparr>calls = 1, sleeps = []\<rparr>)"
    by (simp add: generate_table_text_summaries_def first_then_def)
  have c: "make_llm_call_with_retry_multimodal no_overflow
       (first_then (ResourceExhausted None) (Returned ''summary''))
       ''prompt'' ''image'' ''page 1'' 5 \<lparr>calls = 0, sleeps = []\<rparr>
     = (Inr ''summary'', \<lparr>calls = 2, sleeps = [2]\<rparr>)"
    unfolding make_llm_call_with_retry_multimodal_def
    by (simp add: retry_loop.simps first_then_def backoff_wait_def no_overflow_def)
  show ?thesis by (rule conjI[OF a conjI[OF b c]])
qed


section \<open>Bundles of images and captions\<close>

lemma py_tuple_error: "py_tuple v = Inl e \<Longrightarrow> e = TypeError"
  by (cases v) (simp_all add: py_tuple_def)

lemma try_map_py_tuple_error: "try_map py_tuple ps = Inl e \<Longrightarrow> e = TypeError"
proof (induction ps)
  case Nil
  then show ?case by simp
next
  case (Cons p ps)
  then show ?case
    by (auto split: sum.splits dest: py_tuple_error)
qed

lemma caption_stage_key_error: "caption_stage_key pg c = Inl e \<Longrightarrow> e = TypeError"
  by (cases c)
     (auto simp: caption_stage_key_def coords_for_key_def tuple_map_tuple_def
       split: sum.splits if_splits dest: try_map_py_tuple_error)

lemma caption_stage_key_page: "caption_stage_key pg c = Inr k \<Longrightarrow> \<exists>ck. k = PyTuple [pg, ck]"
  by (auto simp: caption_stage_key_def split: sum.splits)

lemma element_key_SomeD:
  "element_key el = Some k \<Longrightarrow>
     \<exists>pg c. page_number (metadata el) = Some pg \<and> coordinates (metadata el) = Some c
        \<and> caption_stage_key pg (points_or_self c) = Inr k"
  by (auto simp: element_key_def split: option.splits sum.splits)

lemma find_closest_image_mem:
  "find_closest_image caption images = Some r \<Longrightarrow> r \<in> set images"
proof -
  assume "find_closest_image caption images = Some r"
  then obtain cx cy pg where "snd (closest_loop cx cy pg images (None, None)) = Some r"
    by (auto simp: find_closest_image_def split: option.splits center_result.splits)
  from closest_loop_result[OF this] show ?thesis by simp
qed

lemma images_for_closest_search_mem:
  "ci \<in> set (images_for_closest_search images) \<Longrightarrow>
     \<exists>el\<in>set images. \<exists>c. page_number (metadata el) = Some (img_page_number ci)
        \<and> coordinates (metadata el) = Some c \<and> img_coordinates ci = points_or_self c"
  unfolding images_for_closest_search_def
proof (induction images)
  case Nil
  then show ?case by simp
next
  case (Cons el images)
  then show ?case
    by (cases "page_number (metadata el)"; cases "coordinates (metadata el)") auto
qed

lemma set_update_subset: "set (AList.update k v al) \<subseteq> insert (k, v) (set al)"
  by (induction al) auto

lemma keys_update: "fst ` set (AList.update k v al) = insert k (fst ` set al)"
  by (simp add: dom_update)

lemma bundles_ok_update:
  assumes "bundles_ok images captions b64 d" "entry_ok images captions b64 k info"
  shows "bundles_ok images captions b64 (AList.update k info d)"
proof -
  have "distinct (map fst (AList.update k info d))"
    using assms(1) by (simp add: bundles_ok_def distinct_update)
  moreover have "\<forall>(k', info')\<in>set (AList.update k info d). entry_ok images captions b64 k' info'"
    using assms set_update_subset[of k info d] by (auto simp: bundles_ok_def)
  ultimately show ?thesis by (simp add: bundles_ok_def)
qed

lemma caption_loop_ok:
  assumes hash: "\<forall>el\<in>set images. \<forall>k. element_key el = Some k \<longrightarrow> hashable k"
  shows "bundles_ok images captions b64 d \<Longrightarrow> set caps \<subseteq> set captions \<Longrightarrow>
     \<exists>d'. caption_loop images b64 caps d = Inr d' \<and> bundles_ok images captions b64 d'"
proof (induction caps arbitrary: d)
  case Nil
  then show ?case by simp
next
  case (Cons cap caps)
  have caps: "set caps \<subseteq> set captions" and cap: "cap \<in> set captions"
    using Cons.prems(2) by simp_all
  note IH = Cons.IH[OF _ caps]
  show ?case
  proof (cases "find_closest_image cap (images_for_closest_search images)")
    case None
    then show ?thesis using IH[OF Cons.prems(1)] by simp
  next
    case (Some ci)
    from find_closest_image_mem[OF Some] images_for_closest_search_mem
    obtain el c where el: "el \<in> set images"
      and pg: "page_number (metadata el) = Some (img_page_number ci)"
      and c: "coordinates (metadata el) = Some c"
      and ic: "img_coordinates ci = points_or_self c"
      by blast
    show ?thesis
    proof (cases "caption_stage_key (img_page_number ci) (img_coordinates ci)")
      case (Inl e)
      then have "e = TypeError" by (rule caption_stage_key_error)
      then show ?thesis using IH[OF Cons.prems(1)] Some Inl by simp
    next
      case (Inr key)
      have ek: "element_key el = Some key"
        using pg c ic Inr by (simp add: element_key_def)
      then have h: "hashable key" using hash el by blast
      show ?thesis
      proof (cases "map_of b64 key")
        case None
        then show ?thesis using IH[OF Cons.prems(1)] Some Inr h by simp
      next
        case (Some data)
        let ?info = "\<lparr>base64_data = data, caption_text = elem_text cap,
                       info_page_number = img_page_number ci\<rparr>"
        have "entry_ok images captions b64 key ?info"
          unfolding entry_ok_def using el ek pg cap Some by (auto simp: payload_def)
        from IH[OF bundles_ok_update[OF Cons.prems(1) this]]
        show ?thesis using \<open>find_closest_image cap (images_for_closest_search images) = Some ci\<close>
            Inr h Some by simp
      qed
    qed
  qed
qed

lemma orphan_loop_ok:
  assumes hash: "\<forall>el\<in>set images. \<forall>k. element_key el = Some k \<longrightarrow> hashable k"
  shows "bundles_ok images captions b64 d \<Longrightarrow> set imgs \<subseteq> set images \<Longrightarrow>
     \<exists>d'. orphan_loop b64 imgs d = Inr d' \<and> bundles_ok images captions b64 d'
        \<and> fst ` set d \<subseteq> fst ` set d'
        \<and> (\<forall>el\<in>set imgs. \<forall>k. element_key el = Some k \<longrightarrow> k \<in> fst ` set d')"
proof (induction imgs arbitrary: d)
  case Nil
  then show ?case by simp
next
  case (Cons el imgs)
  have imgs: "set imgs \<subseteq> set images" and el: "el \<in> set images"
    using Cons.prems(2) by simp_all
  note IH = Cons.IH[OF _ imgs]
  show ?case
  proof (cases "element_key el")
    case None
    then have skip: "orphan_loop b64 (el # imgs) d = orphan_loop b64 imgs d"
      by (auto simp: element_key_def split: option.splits sum.splits
          dest: caption_stage_key_error)
    from IH[OF Cons.prems(1)] show ?thesis unfolding skip using None by auto
  next
    case (Some k)
    from element_key_SomeD[OF Some] obtain pg c where
      pg: "page_number (metadata el) = Some pg" and c: "coordinates (metadata el) = Some c"
      and key: "caption_stage_key pg (points_or_self c) = Inr k" by blast
    have h: "hashable k" using hash el Some by blast
    show ?thesis
    proof (cases "map_of d k")
      case None
      let ?info = "\<lparr>base64_data = (case map_of b64 k of Some data \<Rightarrow> data | None \<Rightarrow> []),
                     caption_text = [], info_page_number = pg\<rparr>"
      let ?d = "AList.update k ?info d"
      have step: "orphan_loop b64 (el # imgs) d = orphan_loop b64 imgs ?d"
        using pg c key h None by simp
      have "entry_ok images captions b64 k ?info"
        unfolding entry_ok_def using el Some pg by (auto simp: payload_def)
      from IH[OF bundles_ok_update[OF Cons.prems(1) this]] obtain d' where
        d': "orphan_loop b64 imgs ?d = Inr d'" "bundles_ok images captions b64 d'"
          "fst ` set ?d \<subseteq> fst ` set d'"
          "\<forall>el\<in>set imgs. \<forall>k. element_key el = Some k \<longrightarrow> k \<in> fst ` set d'"
        by blast
      have sub: "insert k (fst ` set d) \<subseteq> fst ` set d'"
        using d'(3) by (simp only: keys_update)
      show ?thesis
        unfolding step using d'(1,2,4) sub Some by auto
    next
      case (Some info)
      then have step: "orphan_loop b64 (el # imgs) d = orphan_loop b64 imgs d"
        using pg c key h by simp
      from Some have kin: "k \<in> fst ` set d"
        by (metis map_of_SomeD fst_conv image_eqI)
      from IH[OF Cons.prems(1)] obtain d' where
        d': "orphan_loop b64 imgs d = Inr d'" "bundles_ok images captions b64 d'"
          "fst ` set d \<subseteq> fst ` set d'"
          "\<forall>el\<in>set imgs. \<forall>k. element_key el = Some k \<longrightarrow> k \<in> fst ` set d'"
        by blast
      show ?thesis
        unfolding step using d' kin \<open>element_key el = Some k\<close> by auto
    qed
  qed
qed

lemma element_key_page:
  assumes "element_key el = Some k" "element_key el' = Some k"
  shows "page_number (metadata el) = page_number (metadata el')"
proof -
  from element_key_SomeD[OF assms(1)] obtain pg c where
    a: "page_number (metadata el) = Some pg" "caption_stage_key pg (points_or_self c) = Inr k"
    by blast
  from element_key_SomeD[OF assms(2)] obtain pg' c' where
    b: "page_number (metadata el') = Some pg'" "caption_stage_key pg' (points_or_self c') = Inr k"
    by blast
  from caption_stage_key_page[OF a(2)] caption_stage_key_page[OF b(2)] have "pg = pg'" by auto
  with a(1) b(1) show ?thesis by simp
qed

lemma bundles_bound:
  assumes "distinct (map fst d)"
    and "\<forall>k\<in>fst ` set d. \<exists>el\<in>set images. element_key el = Some k"
  shows "length d \<le> length images"
proof -
  have "fst ` set d \<subseteq> (\<lambda>el. the (element_key el)) ` set images"
  proof
    fix k assume "k \<in> fst ` set d"
    with assms(2) obtain el where "el \<in> set images" "element_key el = Some k" by blast
    then show "k \<in> (\<lambda>el. the (element_key el)) ` set images" by force
  qed
  then have "card (fst ` set d) \<le> card ((\<lambda>el. the (element_key el)) ` set images)"
    by (simp add: card_mono)
  also have "\<dots> \<le> card (set images)" by (simp add: card_image_le)
  also have "\<dots> \<le> length images" by (rule card_length)
  finally have "card (fst ` set d) \<le> length images" .
  moreover have "card (fst ` set d) = length d"
    using assms(1) distinct_card[of "map fst d"] by simp
  ultimately show ?thesis by simp
qed

text \<open>
  Claim C4, as amended. When the keys of the image elements are hashable, the function
  returns a dictionary in which every image element that has a page number and
  coordinates that convert to a key (a tuple, or an iterable of iterables) has exactly one
  entry, under its key: the entry carries the image's page number and the payload
  available for the key (the empty string if none), with either an empty caption text
  (orphan) or the text of a caption element matched to that key. Every key of the
  dictionary is the key of an image, and the dictionary has at most as many entries as
  there are image elements. An image whose coordinates do not convert is skipped.
\<close>

theorem bundles_complete:
  assumes "\<forall>el\<in>set els. category el = Image \<longrightarrow> (\<forall>k. element_key el = Some k \<longrightarrow> hashable k)"
  shows "\<exists>d. generate_caption_image_page_number els b64 = Inr d
     \<and> distinct (map fst d)
     \<and> length d \<le> length (filter (\<lambda>el. category el = Image) els)
     \<and> (\<forall>el\<in>set els. category el = Image \<longrightarrow> (\<forall>k. element_key el = Some k \<longrightarrow>
          (\<exists>info. map_of d k = Some info
             \<and> page_number (metadata el) = Some (info_page_number info)
             \<and> base64_data info = payload b64 k
             \<and> (caption_text info = []
                 \<or> (\<exists>cap\<in>set els. category cap = FigureCaption
                       \<and> caption_text info = elem_text cap \<and> map_of b64 k \<noteq> None)))))
     \<and> (\<forall>k\<in>fst ` set d. \<exists>el\<in>set els. category el = Image \<and> element_key el = Some k)"
proof -
  let ?images = "filter (\<lambda>el. category el = Image) els"
  let ?captions = "filter (\<lambda>el. category el = FigureCaption) els"
  have hash: "\<forall>el\<in>set ?images. \<forall>k. element_key el = Some k \<longrightarrow> hashable k"
    using assms by auto
  have start: "bundles_ok ?images ?captions b64 []" by (simp add: bundles_ok_def)
  from caption_loop_ok[OF hash start subset_refl] obtain d0 where
    d0: "caption_loop ?images b64 ?captions [] = Inr d0" "bundles_ok ?images ?captions b64 d0"
    by blast
  from orphan_loop_ok[OF hash d0(2) subset_refl] obtain d where
    d: "orphan_loop b64 ?images d0 = Inr d" "bundles_ok ?images ?captions b64 d"
      "\<forall>el\<in>set ?images. \<forall>k. element_key el = Some k \<longrightarrow> k \<in> fst ` set d"
    by blast
  have run: "generate_caption_image_page_number els b64 = Inr d"
    using d0(1) d(1) by (simp add: generate_caption_image_page_number_def)
  have dist: "distinct (map fst d)" using d(2) by (simp add: bundles_ok_def)
  have entries: "entry_ok ?images ?captions b64 k info" if "(k, info) \<in> set d" for k info
    using d(2) that by (auto simp: bundles_ok_def)
  have keys: "\<forall>k\<in>fst ` set d. \<exists>el\<in>set els. category el = Image \<and> element_key el = Some k"
  proof
    fix k assume "k \<in> fst ` set d"
    then obtain info where "(k, info) \<in> set d" by auto
    from entries[OF this] show "\<exists>el\<in>set els. category el = Image \<and> element_key el = Some k"
      by (auto simp: entry_ok_def)
  qed
  have keys': "\<forall>k\<in>fst ` set d. \<exists>el\<in>set ?images. element_key el = Some k"
    using keys by auto
  have bound: "length d \<le> length ?images" by (rule bundles_bound[OF dist keys'])
  have complete: "\<forall>el\<in>set els. category el = Image \<longrightarrow> (\<forall>k. element_key el = Some k \<longrightarrow>
          (\<exists>info. map_of d k = Some info
             \<and> page_number (metadata el) = Some (info_page_number info)
             \<and> base64_data info = payload b64 k
             \<and> (caption_text info = []
                 \<or> (\<exists>cap\<in>set els. category cap = FigureCaption
                       \<and> caption_text info = elem_text cap \<and> map_of b64 k \<noteq> None))))"
  proof (intro ballI impI allI)
    fix el k
    assume el: "el \<in> set els" and img: "category el = Image" and k: "element_key el = Some k"
    then have "k \<in> fst ` set d" using d(3) by simp
    then obtain info where mem: "(k, info) \<in> set d" by auto
    then have m: "map_of d k = Some info" using dist by simp
    from entries[OF mem] obtain el' where
      el': "element_key el' = Some k" "page_number (metadata el') = Some (info_page_number info)"
      and b: "base64_data info = payload b64 k"
      and c: "caption_text info = []
                \<or> (\<exists>cap\<in>set ?captions. caption_text info = elem_text cap \<and> map_of b64 k \<noteq> None)"
      unfolding entry_ok_def by blast
    have p: "page_number (metadata el) = Some (info_page_number info)"
      using element_key_page[OF k el'(1)] el'(2) by simp
    from c have c': "caption_text info = []
                 \<or> (\<exists>cap\<in>set els. category cap = FigureCaption
                       \<and> caption_text info = elem_text cap \<and> map_of b64 k \<noteq> None)"
      by auto
    show "\<exists>info. map_of d k = Some info
             \<and> page_number (metadata el) = Some (info_page_number info)
             \<and> base64_data info = payload b64 k
             \<and> (caption_text info = []
                 \<or> (\<exists>cap\<in>set els. category cap = FigureCaption
                       \<and> caption_text info = elem_text cap \<and> map_of b64 k \<noteq> None))"
      by (rule exI[of _ info]) (rule conjI[OF m conjI[OF p conjI[OF b c']]])
  qed
  show ?thesis
    by (rule exI[of _ d]) (rule conjI[OF run conjI[OF dist conjI[OF bound conjI[OF complete keys]]]])
qed

theorem bundles_counterexample:
  "generate_caption_image_page_number
       [sample_element Image [] (PyNum 1) (PyList [PyNum 0, PyNum 0, PyNum 10, PyNum 10])] []
     = Inr []
   \<and> category (sample_element Image [] (PyNum 1) (PyList [PyNum 0, PyNum 0, PyNum 10, PyNum 10]))
       = Image
   \<and> page_number (metadata
        (sample_element Image [] (PyNum 1) (PyList [PyNum 0, PyNum 0, PyNum 10, PyNum 10])))
       = Some (PyNum 1)
   \<and> coordinates (metadata
        (sample_element Image [] (PyNum 1) (PyList [PyNum 0, PyNum 0, PyNum 10, PyNum 10])))
       = Some (PyList [PyNum 0, PyNum 0, PyNum 10, PyNum 10])"
  by (simp add: generate_caption_image_page_number_def sample_element_def caption_stage_key_def
      coords_for_key_def tuple_map_tuple_def py_tuple_def)

lemma element_key_box:
  "element_key (sample_element cat txt pg (box x0 y0 x1 y1))
     = Some (PyTuple [pg, tuple_box x0 y0 x1 y1])"
  by (simp add: element_key_def sample_element_def box_def tuple_box_def caption_stage_key_def
      coords_for_key_def tuple_map_tuple_def py_tuple_def)

lemma element_key_tuple_box:
  "element_key (sample_element cat txt pg (tuple_box x0 y0 x1 y1))
     = Some (PyTuple [pg, tuple_box x0 y0 x1 y1])"
  by (simp add: element_key_def sample_element_def tuple_box_def caption_stage_key_def
      coords_for_key_def)

theorem bundles_complete_witness:
  "\<exists>d. generate_caption_image_page_number
         [sample_element FigureCaption ''Figure 1'' (PyNum 1) (box 8 8 10 10),
          sample_element Image [] (PyNum 1) (box 9 9 11 11),
          sample_element Image [] (PyNum 1) (tuple_box 0 0 1 1)]
         [(PyTuple [PyNum 1, tuple_box 9 9 11 11], ''QUJD'')] = Inr d
     \<and> length d \<le> 2
     \<and> (\<exists>info. map_of d (PyTuple [PyNum 1, tuple_box 9 9 11 11]) = Some info
           \<and> base64_data info = ''QUJD'')
     \<and> (\<exists>info. map_of d (PyTuple [PyNum 1, tuple_box 0 0 1 1]) = Some info
           \<and> base64_data info = [])"
proof -
  let ?cap = "sample_element FigureCaption ''Figure 1'' (PyNum 1) (box 8 8 10 10)"
  let ?a = "sample_element Image [] (PyNum 1) (box 9 9 11 11)"
  let ?b = "sample_element Image [] (PyNum 1) (tuple_box 0 0 1 1)"
  let ?els = "[?cap, ?a, ?b]"
  let ?ka = "PyTuple [PyNum 1, tuple_box 9 9 11 11]"
  let ?kb = "PyTuple [PyNum 1, tuple_box 0 0 1 1]"
  let ?b64 = "[(?ka, ''QUJD'')]"
  have hk: "hashable (PyTuple [PyNum 1, tuple_box x0 y0 x1 y1])" for x0 y0 x1 y1
    by (simp add: tuple_box_def)
  have cats: "category ?cap = FigureCaption" "category ?a = Image" "category ?b = Image"
    by (simp_all add: sample_element_def)
  have hyp: "\<forall>el\<in>set ?els. category el = Image \<longrightarrow> (\<forall>k. element_key el = Some k \<longrightarrow> hashable k)"
    using hk by (auto simp: element_key_box element_key_tuple_box)
  from bundles_complete[OF hyp, of ?b64] obtain d where
    run: "generate_caption_image_page_number ?els ?b64 = Inr d" and
    len: "length d \<le> length (filter (\<lambda>el. category el = Image) ?els)" and
    all: "\<forall>el\<in>set ?els. category el = Image \<longrightarrow> (\<forall>k. element_key el = Some k \<longrightarrow>
          (\<exists>info. map_of d k = Some info
             \<and> page_number (metadata el) = Some (info_page_number info)
             \<and> base64_data info = payload ?b64 k
             \<and> (caption_text info = []
                 \<or> (\<exists>cap\<in>set ?els. category cap = FigureCaption
                       \<and> caption_text info = elem_text cap \<and> map_of ?b64 k \<noteq> None))))"
    by blast
  have l2: "length d \<le> 2" using len cats by simp
  have ne: "?kb \<noteq> ?ka" by (simp add: tuple_box_def)
  from all[rule_format, of ?a ?ka] cats obtain ia where
    ia: "map_of d ?ka = Some ia" "base64_data ia = payload ?b64 ?ka"
    by (auto simp: element_key_box)
  from all[rule_format, of ?b ?kb] cats obtain ib where
    ib: "map_of d ?kb = Some ib" "base64_data ib = payload ?b64 ?kb"
    by (auto simp: element_key_tuple_box)
  have pa: "payload ?b64 ?ka = ''QUJD''" by (simp add: payload_def)
  have pb: "payload ?b64 ?kb = []" using ne by (simp add: payload_def)
  show ?thesis
    using run l2 ia ib pa pb by auto
qed

end
